theory Spec2Isabelle
  imports Complex_Main "HOL-Library.Extended_Nat"
begin

section \<open>Data model of the pivot-estimator loop\<close>

text \<open>
  The program is the main loop of \<^verbatim>\<open>test_gtsam_advanced_estimator.py\<close>. One pass through
  the body of its \<^verbatim>\<open>while\<close> loop is the function \<open>cycle\<close> below. Python floats are
  modelled as real numbers, a float literal as the value of the double it denotes, and
  Python's unbounded integers as \<open>int\<close>. The estimator, the
  contact-mode reasoner and the transport layer are objects of other modules: every call
  the loop makes on them is recorded, in source order, in a log of events, and every value
  they hand back to the loop is a field of the per-cycle input record.
\<close>

datatype pyerr = NameError | TypeError | IndexError | ValueError | ZeroDivisionError

definition py_bind :: "pyerr + 'a \<Rightarrow> ('a \<Rightarrow> pyerr + 'b) \<Rightarrow> pyerr + 'b" where
  "py_bind m f = (case m of Inl e \<Rightarrow> Inl e | Inr x \<Rightarrow> f x)"

text \<open>Indexing \<^verbatim>\<open>xs[i]\<close>: a negative index counts from the end, out of range raises.\<close>

definition py_get :: "'a list \<Rightarrow> int \<Rightarrow> pyerr + 'a" where
  "py_get xs i =
     (if 0 \<le> i \<and> i < int (length xs) then Inr (xs ! nat i)
      else if i < 0 \<and> - int (length xs) \<le> i then Inr (xs ! nat (int (length xs) + i))
      else Inl IndexError)"

text \<open>Reading a variable that is bound only once some earlier branch has run.\<close>

definition py_var :: "'a option \<Rightarrow> pyerr + 'a" where
  "py_var v = (case v of None \<Rightarrow> Inl NameError | Some x \<Rightarrow> Inr x)"

fun py_collect :: "('a \<Rightarrow> pyerr + 'b) \<Rightarrow> 'a list \<Rightarrow> pyerr + 'b list" where
  "py_collect f [] = Inr []"
| "py_collect f (x # xs) =
     py_bind (f x) (\<lambda>y. py_bind (py_collect f xs) (\<lambda>ys. Inr (y # ys)))"

subsection \<open>numpy operations used by the loop\<close>

definition dot :: "real list \<Rightarrow> real list \<Rightarrow> real" where
  "dot a w = sum_list (map2 (*) a w)"

text \<open>\<^verbatim>\<open>np.dot(A, w)\<close> for an array \<open>A\<close> of rows and a non-empty vector \<open>w\<close>: every
  row has the length of \<open>w\<close>, otherwise the shapes are not aligned (an array without
  rows has shape (0,), which is not aligned with \<open>w\<close> either).\<close>

definition np_dot :: "real list list \<Rightarrow> real list \<Rightarrow> pyerr + real list" where
  "np_dot A w =
     (if A \<noteq> [] \<and> list_all (\<lambda>row. length row = length w) A
      then Inr (map (\<lambda>row. dot row w) A)
      else Inl ValueError)"

text \<open>Elementwise \<^verbatim>\<open>xs > ys\<close> on one-dimensional arrays, with broadcasting of a
  length-one operand.\<close>

definition np_greater :: "real list \<Rightarrow> real list \<Rightarrow> pyerr + bool list" where
  "np_greater xs ys =
     (if length xs = length ys then Inr (map2 (\<lambda>x y. x > y) xs ys)
      else if length xs = 1 then Inr (map (\<lambda>y. hd xs > y) ys)
      else if length ys = 1 then Inr (map (\<lambda>x. x > hd ys) xs)
      else Inl ValueError)"

fun first_index_of :: "real \<Rightarrow> real list \<Rightarrow> nat" where
  "first_index_of v [] = 0"
| "first_index_of v (x # xs) = (if x = v then 0 else Suc (first_index_of v xs))"

definition np_argmin :: "real list \<Rightarrow> pyerr + nat" where
  "np_argmin xs = (if xs = [] then Inl ValueError else Inr (first_index_of (Min (set xs)) xs))"

definition np_argmax :: "real list \<Rightarrow> pyerr + nat" where
  "np_argmax xs = (if xs = [] then Inl ValueError else Inr (first_index_of (Max (set xs)) xs))"

section \<open>Wall-contact classification (lines 159--176)\<close>

definition wall_contact_force_margin :: real where
  "wall_contact_force_margin = 3"

text \<open>
  \<^verbatim>\<open>if len(a) > 0: any(np.dot(a, wrench) > b + wall_contact_force_margin) else: True\<close>
\<close>

definition wall_contact_bool :: "real list list \<Rightarrow> real list \<Rightarrow> real list \<Rightarrow> pyerr + bool" where
  "wall_contact_bool a b wrench =
     (if length a > 0
      then py_bind (np_dot a wrench) (\<lambda>lhs.
           py_bind (np_greater lhs (map (\<lambda>x. x + wall_contact_force_margin) b)) (\<lambda>tests.
           Inr (list_ex (\<lambda>t. t) tests)))
      else Inr True)"

definition wall_flag_of :: "bool \<Rightarrow> bool \<Rightarrow> int" where
  "wall_flag_of wall_contact_right_bool wall_contact_left_bool =
     (if wall_contact_right_bool \<and> \<not> wall_contact_left_bool then 0
      else if \<not> wall_contact_right_bool \<and> wall_contact_left_bool then 1
      else if wall_contact_right_bool \<and> wall_contact_left_bool then 2
      else - 1)"


section \<open>Messages, collaborator calls and loop state\<close>

type_synonym pose = "real list"
type_synonym wrench = "real list"
type_synonym sliding_state = "(string \<times> bool) list"
type_synonym vertex_array = "real list list"
type_synonym obj_to_vision_map = "int list"

text \<open>The dictionary returned by the reasoner's corner-contact feasibility test; the loop
  reads the two keys below and passes the dictionary on.\<close>

record corner_contact =
  is_feasible :: bool
  contact_vertex :: int

text \<open>The reasoner's vision hypothesis set.\<close>

record vision_hypothesis =
  hypothesis_obj_to_vision_map_list :: "obj_to_vision_map list"
  hypothesis_theta_list :: "real list"

text \<open>A kinematic hypothesis set of the reasoner. Its key \<^verbatim>\<open>hypothesis_theta_list\<close> is
  the field \<open>kin_hypothesis_theta_list\<close>.\<close>

record kinematic_hypothesis =
  num_hypothesis :: int
  hypothesis_object_position_list :: "real list list"
  kin_hypothesis_theta_list :: "real list"
  hypothesis_ground_contact_face_list :: "int list"

text \<open>The dictionary returned by \<^verbatim>\<open>compute_basic_estimate\<close>.\<close>

record estimate =
  vertex_positions_wm_current :: "real list list"
  mglcostheta_current :: "real list"
  mglsintheta_current :: "real list"

text \<open>The arguments of \<^verbatim>\<open>rm.pub_polygon_contact_estimate\<close>.\<close>

record polygon_contact_estimate =
  vertex_array_out :: "real list list"
  contact_indices :: "nat list"
  mgl_cos_theta_list :: "real list"
  mgl_sin_theta_list :: "real list"
  hand_contact_indices :: "int list"
  wall_contact_indices :: "nat list"
  wall_flag :: int

text \<open>Calls and attribute assignments on \<^verbatim>\<open>current_estimator\<close>.\<close>

datatype estimator_call =
  Increment_time
| Add_hand_pose_measurement pose
| Add_hand_wrench_measurement wrench
| Add_sliding_state sliding_state
| Update_wall_contact_state bool
| Add_kinematic_constraints_object_corner_hand_line_contact corner_contact
| Add_kinematic_constraints_hand_flush_contact
| Add_kinematic_constraints_no_hand_contact_for_vision_assist
| Add_kinematic_constraints_no_hand_contact_for_no_vision_assist "real list" real int
| Add_vision_estimate vertex_array
| Add_vision_constraints_no_hand_contact obj_to_vision_map
| Add_vision_constraints_hand_flush_contact obj_to_vision_map
| Set_current_contact_face "int option"
| Set_s_current real
| Compute_basic_estimate

text \<open>Calls on \<^verbatim>\<open>my_cm_reasoner\<close>.\<close>

datatype reasoner_call =
  Update_pose_and_wrench pose wrench wrench
| Update_torque_cone_boundary_flag "bool option" "int option"
| COP_reasoning_hand_contact
| Update_check_on_transition_from_hand_line_object_line_contact_to_no_contact
| Compute_feasibility_of_hand_line_object_corner_contact
| Update_vision vertex_array
| Compute_hypothesis_object_poses_from_vision
| Compute_hypothesis_object_poses_assuming_no_object_motion
| Compute_hypothesis_object_poses_assuming_hand_line_object_line_contact
| Compute_hypothesis_object_poses_assuming_no_contact
| Choose_vision_hypothesis vision_hypothesis kinematic_hypothesis
| Compute_hand_contact_face
| Update_previous_estimate "estimate option"

text \<open>Messages handed to the transport layer.\<close>

datatype publication =
  Pub_pivot_frame_estimated "real list"
| Pub_polygon_contact_estimate polygon_contact_estimate

datatype event = Est estimator_call | Rsn reasoner_call | Pub publication

text \<open>
  What one cycle reads: the payloads unpacked by \<^verbatim>\<open>rm.unpack_all()\<close>, the clock, the
  estimator attributes the loop reads, and the values the reasoner and the estimator
  return to the loop. \<open>hand_pose_pivot_estimator\<close> is the array built at line 188 from
  the end-effector pose. \<open>polygon_vision_estimate_dict\<close> holds the dictionary's
  \<^verbatim>\<open>vertex_array\<close> entry. \<open>has_run_once\<close> is the estimator's flag as read at line 199,
  \<open>has_run_once_vision_assist\<close> the same flag as read at line 319.
\<close>

record cycle_input =
  friction_aer :: "real list list"
  friction_ber :: "real list"
  friction_ael :: "real list list"
  friction_bel :: "real list"
  measured_world_manipulation_wrench :: wrench
  measured_contact_wrench :: wrench
  hand_pose_pivot_estimator :: pose
  ee_pose_in_world_manipulation_homog :: "real list list"
  torque_cone_boundary_test :: "bool option"
  torque_cone_boundary_flag :: "int option"
  sliding_state_msg :: sliding_state
  polygon_vision_estimate_has_new :: bool
  polygon_vision_estimate_dict :: "vertex_array option"
  time_now :: real
  has_run_once :: bool
  has_run_once_vision_assist :: bool
  contact_vertices :: "int list option"
  basic_estimate :: "estimate option"
  line_line_to_no_contact_check :: bool
  temp_corner_contact_dict :: corner_contact
  hypothesis_from_vision :: vision_hypothesis
  hypothesis_no_object_motion :: kinematic_hypothesis
  hypothesis_hand_line_object_line_contact :: kinematic_hypothesis
  hypothesis_no_contact :: kinematic_hypothesis
  hypothesis_index :: "int option"
  hand_contact_face :: "int \<times> real"

text \<open>
  The variables that live across iterations of the loop. \<open>vision_vertex_array\<close> and
  \<open>vision_hypothesis_dict\<close> are bound only after the first vision message: \<open>None\<close> is
  the unbound variable. The miss counter starts at \<^verbatim>\<open>np.inf\<close>.
\<close>

record loop_state =
  t_vision_recent :: real
  time_since_last_vision_message :: real
  corner_contact_is_feasible :: bool
  prev_step_was_line_contact :: bool
  num_line_contact_detected_count :: enat
  corner_contact_dict :: "corner_contact option"
  vision_vertex_array :: "vertex_array option"
  vision_hypothesis_dict :: "vision_hypothesis option"

text \<open>Lines 137--144, for a clock reading \<open>t0\<close>.\<close>

definition initial_state :: "real \<Rightarrow> loop_state" where
  "initial_state t0 =
     \<lparr> t_vision_recent = t0 - 1,
       time_since_last_vision_message = 100,
       corner_contact_is_feasible = False,
       prev_step_was_line_contact = True,
       num_line_contact_detected_count = \<infinity>,
       corner_contact_dict = None,
       vision_vertex_array = None,
       vision_hypothesis_dict = None \<rparr>"

text \<open>The five outcomes of the \<^verbatim>\<open>if/elif\<close> chain of lines 228--347. The label is not a
  variable of the program: it records which block set \<^verbatim>\<open>can_run_estimate\<close>.\<close>

datatype mode = CornerContactMode | FlushLineContactMode | VisionAssistMode | NoContactMode | Idle

record branch_result =
  br_state :: loop_state
  br_events :: "event list"
  br_can_run_estimate :: bool
  br_hand_contact_indices :: "int list"
  br_mode :: mode

record cycle_result =
  state_out :: loop_state
  log :: "event list"
  mode_fired :: mode

section \<open>Reasoner update, hysteresis and vision recency (lines 186--224)\<close>

definition reasoner_updates :: "cycle_input \<Rightarrow> event list" where
  "reasoner_updates inp =
     [Rsn (Update_pose_and_wrench (hand_pose_pivot_estimator inp)
             (measured_world_manipulation_wrench inp) (measured_contact_wrench inp)),
      Rsn (Update_torque_cone_boundary_flag (torque_cone_boundary_test inp)
             (torque_cone_boundary_flag inp)),
      Rsn COP_reasoning_hand_contact,
      Rsn Update_check_on_transition_from_hand_line_object_line_contact_to_no_contact]"

text \<open>Lines 203--211: the update for one feasibility report \<open>d\<close>.\<close>

definition corner_feasibility_report :: "corner_contact \<Rightarrow> loop_state \<Rightarrow> loop_state" where
  "corner_feasibility_report d st =
     (if is_feasible d
      then st\<lparr> corner_contact_is_feasible := True,
               corner_contact_dict := Some d,
               num_line_contact_detected_count := 0 \<rparr>
      else let c = num_line_contact_detected_count st + 1
           in if c > 15
              then st\<lparr> num_line_contact_detected_count := c,
                       corner_contact_is_feasible := False \<rparr>
              else st\<lparr> num_line_contact_detected_count := c \<rparr>)"

definition update_corner_feasibility :: "cycle_input \<Rightarrow> loop_state \<Rightarrow> loop_state" where
  "update_corner_feasibility inp st =
     (if has_run_once inp then corner_feasibility_report (temp_corner_contact_dict inp) st
      else st)"

definition corner_feasibility_events :: "cycle_input \<Rightarrow> event list" where
  "corner_feasibility_events inp =
     (if has_run_once inp then [Rsn Compute_feasibility_of_hand_line_object_corner_contact]
      else [])"

text \<open>The test of lines 216 and 294.\<close>

definition vision_message_arrived :: "cycle_input \<Rightarrow> bool" where
  "vision_message_arrived inp \<longleftrightarrow>
     polygon_vision_estimate_has_new inp \<and> polygon_vision_estimate_dict inp \<noteq> None"

definition update_vision_recency :: "cycle_input \<Rightarrow> loop_state \<Rightarrow> loop_state" where
  "update_vision_recency inp st =
     (if vision_message_arrived inp
      then st\<lparr> t_vision_recent := time_now inp,
               time_since_last_vision_message := 0,
               vision_vertex_array := polygon_vision_estimate_dict inp,
               vision_hypothesis_dict := Some (hypothesis_from_vision inp) \<rparr>
      else st\<lparr> time_since_last_vision_message := time_now inp - t_vision_recent st \<rparr>)"

definition vision_recency_events :: "cycle_input \<Rightarrow> event list" where
  "vision_recency_events inp =
     (if vision_message_arrived inp
      then [Rsn (Update_vision (the (polygon_vision_estimate_dict inp))),
            Rsn Compute_hypothesis_object_poses_from_vision]
      else [])"

section \<open>The mode cascade (lines 228--347)\<close>

text \<open>The float literal \<^verbatim>\<open>.2\<close> denotes the double nearest to 1/5, which lies just above
  it: 3602879701896397 / 2^54. The literals \<^verbatim>\<open>1.0\<close> and \<^verbatim>\<open>3.0\<close> are exact.\<close>

definition fresh_vision_limit :: real where
  "fresh_vision_limit = 3602879701896397 / 2 ^ 54"

text \<open>The tests \<^verbatim>\<open>time_since_last_vision_message<.2\<close> (lines 247, 284) and
  \<^verbatim>\<open>time_since_last_vision_message>1.0\<close> (line 326).\<close>

definition vision_is_fresh :: "loop_state \<Rightarrow> bool" where
  "vision_is_fresh st \<longleftrightarrow> time_since_last_vision_message st < fresh_vision_limit"

definition vision_is_long_stale :: "loop_state \<Rightarrow> bool" where
  "vision_is_long_stale st \<longleftrightarrow> time_since_last_vision_message st > 1"

text \<open>\<^verbatim>\<open>measured_wrench_ee[0]>3.0\<close>.\<close>

definition normal_force_exceeds :: "cycle_input \<Rightarrow> pyerr + bool" where
  "normal_force_exceeds inp =
     py_bind (py_get (measured_contact_wrench inp) 0) (\<lambda>f. Inr (f > 3))"

text \<open>The conditions of lines 228 and 258; \<^verbatim>\<open>and\<close> evaluates its right operand only
  when the left one is true.\<close>

definition corner_condition :: "cycle_input \<Rightarrow> loop_state \<Rightarrow> pyerr + bool" where
  "corner_condition inp st =
     (if torque_cone_boundary_test inp = Some True \<and> corner_contact_is_feasible st
      then normal_force_exceeds inp else Inr False)"

definition flush_condition :: "cycle_input \<Rightarrow> pyerr + bool" where
  "flush_condition inp =
     (if torque_cone_boundary_test inp = Some True then normal_force_exceeds inp
      else Inr False)"

text \<open>Lines 247--253.\<close>

definition corner_vision_fusion :: "cycle_input \<Rightarrow> loop_state \<Rightarrow> pyerr + event list" where
  "corner_vision_fusion inp st =
     (if vision_is_fresh st
      then py_bind (py_var (vision_hypothesis_dict st)) (\<lambda>vhd.
           let asked = [Rsn (Choose_vision_hypothesis vhd (hypothesis_no_object_motion inp))]
           in case hypothesis_index inp of
                None \<Rightarrow> Inr asked
              | Some k \<Rightarrow>
                  py_bind (py_var (vision_vertex_array st)) (\<lambda>vva.
                  py_bind (py_get (hypothesis_obj_to_vision_map_list vhd) k) (\<lambda>m.
                  Inr (asked @ [Est (Add_vision_estimate vva),
                                Est (Add_vision_constraints_no_hand_contact m)]))))
      else Inr [])"

text \<open>Lines 229--253.\<close>

definition corner_branch :: "cycle_input \<Rightarrow> bool \<Rightarrow> loop_state \<Rightarrow> pyerr + branch_result" where
  "corner_branch inp wall_contact_on st =
     (let st' = st\<lparr> prev_step_was_line_contact := False \<rparr>
      in case corner_contact_dict st of
           None \<Rightarrow> Inl TypeError
         | Some d \<Rightarrow>
             py_bind (corner_vision_fusion inp st') (\<lambda>fusion.
             Inr \<lparr> br_state = st',
                   br_events =
                     [Est Increment_time,
                      Est (Add_hand_pose_measurement (hand_pose_pivot_estimator inp)),
                      Est (Add_hand_wrench_measurement (measured_world_manipulation_wrench inp)),
                      Est (Add_sliding_state (sliding_state_msg inp)),
                      Est (Update_wall_contact_state wall_contact_on),
                      Est (Add_kinematic_constraints_object_corner_hand_line_contact d),
                      Est (Set_current_contact_face None),
                      Rsn Compute_hypothesis_object_poses_assuming_no_object_motion]
                     @ fusion,
                   br_can_run_estimate = True,
                   br_hand_contact_indices = [contact_vertex d],
                   br_mode = CornerContactMode \<rparr>))"

text \<open>Lines 284--289.\<close>

definition flush_vision_fusion :: "cycle_input \<Rightarrow> loop_state \<Rightarrow> pyerr + event list" where
  "flush_vision_fusion inp st =
     (if vision_is_fresh st
      then py_bind (py_var (vision_hypothesis_dict st)) (\<lambda>vhd.
           py_bind (py_var (vision_vertex_array st)) (\<lambda>vva.
           let asked = [Rsn (Choose_vision_hypothesis vhd
                               (hypothesis_hand_line_object_line_contact inp)),
                        Est (Add_vision_estimate vva)]
           in case hypothesis_index inp of
                None \<Rightarrow> Inr asked
              | Some k \<Rightarrow>
                  py_bind (py_get (hypothesis_obj_to_vision_map_list vhd) k) (\<lambda>m.
                  Inr (asked @ [Est (Add_vision_constraints_hand_flush_contact m)]))))
      else Inr [])"

text \<open>Line 281: \<^verbatim>\<open>[current_contact_face,(current_contact_face+1)%num_vertices]\<close>.\<close>

definition flush_hand_contact_indices :: "nat \<Rightarrow> int \<Rightarrow> pyerr + int list" where
  "flush_hand_contact_indices num_vertices current_contact_face =
     (if num_vertices = 0 then Inl ZeroDivisionError
      else Inr [current_contact_face, (current_contact_face + 1) mod int num_vertices])"

text \<open>Lines 259--291.\<close>

definition flush_branch ::
  "nat \<Rightarrow> cycle_input \<Rightarrow> bool \<Rightarrow> loop_state \<Rightarrow> pyerr + branch_result" where
  "flush_branch num_vertices inp wall_contact_on st =
     (let current_contact_face = fst (hand_contact_face inp);
          s_current_cm_reasoner = snd (hand_contact_face inp)
      in py_bind (flush_hand_contact_indices num_vertices current_contact_face) (\<lambda>hand.
         py_bind (flush_vision_fusion inp st) (\<lambda>fusion.
         Inr \<lparr> br_state = st\<lparr> prev_step_was_line_contact := True \<rparr>,
               br_events =
                 [Est Increment_time,
                  Rsn Compute_hand_contact_face,
                  Est (Set_current_contact_face (Some current_contact_face))]
                 @ (if \<not> prev_step_was_line_contact st
                    then [Est (Set_s_current s_current_cm_reasoner)] else [])
                 @ [Est (Add_hand_pose_measurement (hand_pose_pivot_estimator inp)),
                    Est (Add_hand_wrench_measurement (measured_world_manipulation_wrench inp)),
                    Est (Add_sliding_state (sliding_state_msg inp)),
                    Est (Update_wall_contact_state wall_contact_on),
                    Est Add_kinematic_constraints_hand_flush_contact,
                    Rsn Compute_hypothesis_object_poses_assuming_hand_line_object_line_contact]
                 @ fusion,
               br_can_run_estimate = True,
               br_hand_contact_indices = hand,
               br_mode = FlushLineContactMode \<rparr>)))"

text \<open>Lines 295--324. The value \<^verbatim>\<open>test_val\<close> of lines 313--315 is never used; its read
  of \<^verbatim>\<open>hypothesis_theta_list[hypothesis_index]\<close> can still raise.\<close>

definition vision_branch :: "cycle_input \<Rightarrow> bool \<Rightarrow> loop_state \<Rightarrow> pyerr + branch_result" where
  "vision_branch inp wall_contact_on st =
     py_bind (py_var (vision_hypothesis_dict st)) (\<lambda>vhd.
     let asked = [Rsn Compute_hypothesis_object_poses_assuming_no_object_motion,
                  Rsn (Choose_vision_hypothesis vhd (hypothesis_no_object_motion inp))]
     in case hypothesis_index inp of
          None \<Rightarrow>
            Inr \<lparr> br_state = st, br_events = asked, br_can_run_estimate = False,
                  br_hand_contact_indices = [], br_mode = Idle \<rparr>
        | Some k \<Rightarrow>
            py_bind (py_get (hypothesis_theta_list vhd) k) (\<lambda>theta.
            py_bind (py_var (vision_vertex_array st)) (\<lambda>vva.
            py_bind (py_get (hypothesis_obj_to_vision_map_list vhd) k) (\<lambda>m.
            Inr \<lparr> br_state = st\<lparr> prev_step_was_line_contact := False \<rparr>,
                  br_events =
                    asked
                    @ [Est (Set_current_contact_face None),
                       Est Increment_time,
                       Est (Add_hand_pose_measurement (hand_pose_pivot_estimator inp)),
                       Est (Add_hand_wrench_measurement
                              (measured_world_manipulation_wrench inp)),
                       Est (Add_sliding_state (sliding_state_msg inp)),
                       Est (Update_wall_contact_state wall_contact_on)]
                    @ (if has_run_once_vision_assist inp
                       then [Est Add_kinematic_constraints_no_hand_contact_for_vision_assist]
                       else [])
                    @ [Est (Add_vision_estimate vva),
                       Est (Add_vision_constraints_no_hand_contact m)],
                  br_can_run_estimate = True,
                  br_hand_contact_indices = [],
                  br_mode = VisionAssistMode \<rparr>))))"

text \<open>Lines 328--347.\<close>

definition no_contact_branch :: "cycle_input \<Rightarrow> loop_state \<Rightarrow> pyerr + branch_result" where
  "no_contact_branch inp st =
     (let kinematic_hypothesis_dict = hypothesis_no_contact inp;
          asked = [Rsn Compute_hypothesis_object_poses_assuming_no_contact]
      in if num_hypothesis kinematic_hypothesis_dict = 1
         then py_bind (py_get (hypothesis_object_position_list kinematic_hypothesis_dict) 0)
                (\<lambda>hypothesis_position.
              py_bind (py_get (kin_hypothesis_theta_list kinematic_hypothesis_dict) 0)
                (\<lambda>hypothesis_theta.
              py_bind (py_get (hypothesis_ground_contact_face_list kinematic_hypothesis_dict) 0)
                (\<lambda>ground_contact_face.
              Inr \<lparr> br_state = st\<lparr> prev_step_was_line_contact := False \<rparr>,
                    br_events =
                      asked
                      @ [Est (Set_current_contact_face None),
                         Est Increment_time,
                         Est (Add_hand_pose_measurement (hand_pose_pivot_estimator inp)),
                         Est (Add_hand_wrench_measurement
                                (measured_world_manipulation_wrench inp)),
                         Est (Add_sliding_state (sliding_state_msg inp)),
                         Est (Add_kinematic_constraints_no_hand_contact_for_no_vision_assist
                                hypothesis_position hypothesis_theta ground_contact_face)],
                    br_can_run_estimate = True,
                    br_hand_contact_indices = [],
                    br_mode = NoContactMode \<rparr>)))
         else Inr \<lparr> br_state = st, br_events = asked, br_can_run_estimate = False,
                    br_hand_contact_indices = [], br_mode = Idle \<rparr>)"

definition idle_result :: "loop_state \<Rightarrow> branch_result" where
  "idle_result st =
     \<lparr> br_state = st, br_events = [], br_can_run_estimate = False,
       br_hand_contact_indices = [], br_mode = Idle \<rparr>"

text \<open>The \<^verbatim>\<open>if/elif\<close> chain of lines 228, 258, 294 and 326.\<close>

definition arbitrate ::
  "nat \<Rightarrow> cycle_input \<Rightarrow> bool \<Rightarrow> loop_state \<Rightarrow> pyerr + branch_result" where
  "arbitrate num_vertices inp wall_contact_on st =
     py_bind (corner_condition inp st) (\<lambda>c1.
     if c1 then corner_branch inp wall_contact_on st
     else py_bind (flush_condition inp) (\<lambda>c2.
          if c2 then flush_branch num_vertices inp wall_contact_on st
          else if vision_message_arrived inp then vision_branch inp wall_contact_on st
          else if line_line_to_no_contact_check inp \<and> vision_is_long_stale st
               then no_contact_branch inp st
          else Inr (idle_result st)))"

section \<open>Estimate, pivot frame and polygon message (lines 351--402)\<close>

text \<open>Line 114; the literal \<^verbatim>\<open>.041\<close> denotes the double 5908722711110091 / 2^57.\<close>

definition hand_front_center_height :: real where
  "hand_front_center_height = 5908722711110091 / 2 ^ 57"

definition hand_front_center :: "real list" where
  "hand_front_center = [0, 0, hand_front_center_height, 1]"

text \<open>Lines 364--368.\<close>

definition pivot_frame_events ::
  "cycle_input \<Rightarrow> estimate \<Rightarrow> real list \<Rightarrow> pyerr + event list" where
  "pivot_frame_events inp current_estimate_dict hand_front_center_world =
     (case contact_vertices inp of
        None \<Rightarrow> Inr []
      | Some cv \<Rightarrow>
          py_bind (py_get cv 0) (\<lambda>contact_index.
          py_bind (py_get (vertex_positions_wm_current current_estimate_dict) 0) (\<lambda>row_n.
          py_bind (py_get row_n contact_index) (\<lambda>pn_wm.
          py_bind (py_get (vertex_positions_wm_current current_estimate_dict) 1) (\<lambda>row_t.
          py_bind (py_get row_t contact_index) (\<lambda>pt_wm.
          py_bind (py_get hand_front_center_world 2) (\<lambda>z.
          Inr [Pub (Pub_pivot_frame_estimated [pn_wm, pt_wm, z])])))))))"

text \<open>Lines 370--402. The loop runs over the indices of the first row of the vertex
  positions; each of its reads raises the same \<^verbatim>\<open>IndexError\<close> when out of range, so
  the columns are collected one after the other.\<close>

definition polygon_message ::
  "cycle_input \<Rightarrow> estimate \<Rightarrow> real list \<Rightarrow> int \<Rightarrow> int list
     \<Rightarrow> pyerr + polygon_contact_estimate" where
  "polygon_message inp current_estimate_dict hand_front_center_world wall_flag_val hand =
     py_bind (py_get (vertex_positions_wm_current current_estimate_dict) 0) (\<lambda>row_n.
     let idx = [0 ..< length row_n] in
     py_bind (py_collect (\<lambda>i. py_get row_n (int i)) idx) (\<lambda>vertex_array_n.
     py_bind (py_collect (\<lambda>i.
                py_bind (py_get (vertex_positions_wm_current current_estimate_dict) 1)
                  (\<lambda>row_t. py_get row_t (int i))) idx) (\<lambda>vertex_array_t.
     py_bind (py_collect (\<lambda>i. py_get hand_front_center_world 2) idx) (\<lambda>vertex_array_z.
     py_bind (py_collect (\<lambda>i. py_get (mglcostheta_current current_estimate_dict) (int i)) idx)
       (\<lambda>cos_list.
     py_bind (py_collect (\<lambda>i. py_get (mglsintheta_current current_estimate_dict) (int i)) idx)
       (\<lambda>sin_list.
     py_bind (if wall_flag_val = 0
              then py_bind (np_argmin vertex_array_t) (\<lambda>k. Inr [k])
              else if wall_flag_val = 1
              then py_bind (np_argmax vertex_array_t) (\<lambda>k. Inr [k])
              else Inr []) (\<lambda>wall.
     Inr \<lparr> vertex_array_out = [vertex_array_n, vertex_array_t, vertex_array_z],
           contact_indices =
             (case contact_vertices inp of
                None \<Rightarrow> []
              | Some cv \<Rightarrow> filter (\<lambda>i. int i \<in> set cv) idx),
           mgl_cos_theta_list = cos_list,
           mgl_sin_theta_list = sin_list,
           hand_contact_indices = hand,
           wall_contact_indices = wall,
           wall_flag = wall_flag_val \<rparr>)))))))"

text \<open>Lines 354--402, the body of \<^verbatim>\<open>if can_run_estimate\<close>. The argument of the
  unused \<^verbatim>\<open>np.argsort\<close> of line 362 is still read.\<close>

definition publish_estimate :: "cycle_input \<Rightarrow> int \<Rightarrow> int list \<Rightarrow> pyerr + event list" where
  "publish_estimate inp wall_flag_val hand =
     py_bind (np_dot (ee_pose_in_world_manipulation_homog inp) hand_front_center)
       (\<lambda>hand_front_center_world.
     let current_estimate_dict = basic_estimate inp;
         computed = [Est Compute_basic_estimate,
                     Rsn (Update_previous_estimate current_estimate_dict)]
     in case current_estimate_dict of
          None \<Rightarrow> Inr computed
        | Some e \<Rightarrow>
            py_bind (py_get (vertex_positions_wm_current e) 0) (\<lambda>heights.
            py_bind (pivot_frame_events inp e hand_front_center_world) (\<lambda>pivot.
            py_bind (polygon_message inp e hand_front_center_world wall_flag_val hand) (\<lambda>msg.
            Inr (computed @ pivot @ [Pub (Pub_polygon_contact_estimate msg)])))))"

section \<open>One iteration of the loop (lines 149--402)\<close>

definition cycle :: "nat \<Rightarrow> cycle_input \<Rightarrow> loop_state \<Rightarrow> pyerr + cycle_result" where
  "cycle num_vertices inp st =
     py_bind (wall_contact_bool (friction_aer inp) (friction_ber inp)
                (measured_world_manipulation_wrench inp)) (\<lambda>wall_contact_right_bool.
     py_bind (wall_contact_bool (friction_ael inp) (friction_bel inp)
                (measured_world_manipulation_wrench inp)) (\<lambda>wall_contact_left_bool.
     let wall_flag_val = wall_flag_of wall_contact_right_bool wall_contact_left_bool;
         wall_contact_on = (wall_contact_right_bool \<or> wall_contact_left_bool);
         st1 = update_corner_feasibility inp st;
         st2 = update_vision_recency inp st1
     in py_bind (arbitrate num_vertices inp wall_contact_on st2) (\<lambda>b.
        py_bind (if br_can_run_estimate b
                 then publish_estimate inp wall_flag_val (br_hand_contact_indices b)
                 else Inr []) (\<lambda>published.
        Inr \<lparr> state_out = br_state b,
              log = reasoner_updates inp @ corner_feasibility_events inp
                    @ vision_recency_events inp @ br_events b @ published,
              mode_fired = br_mode b \<rparr>))))"

text \<open>The loop over the cycles' inputs; an exception ends the program.\<close>

fun run_cycles :: "nat \<Rightarrow> cycle_input list \<Rightarrow> loop_state \<Rightarrow> pyerr + loop_state" where
  "run_cycles num_vertices [] st = Inr st"
| "run_cycles num_vertices (inp # inps) st =
     py_bind (cycle num_vertices inp st) (\<lambda>r. run_cycles num_vertices inps (state_out r))"

section \<open>Reading a log\<close>

text \<open>The estimator calls and the publications of a log, in order.\<close>

fun estimator_calls :: "event list \<Rightarrow> estimator_call list" where
  "estimator_calls [] = []"
| "estimator_calls (Est c # evs) = c # estimator_calls evs"
| "estimator_calls (Rsn c # evs) = estimator_calls evs"
| "estimator_calls (Pub m # evs) = estimator_calls evs"

fun publications :: "event list \<Rightarrow> publication list" where
  "publications [] = []"
| "publications (Pub m # evs) = m # publications evs"
| "publications (Est c # evs) = publications evs"
| "publications (Rsn c # evs) = publications evs"

fun pivot_frames :: "publication list \<Rightarrow> real list list" where
  "pivot_frames [] = []"
| "pivot_frames (Pub_pivot_frame_estimated p # ms) = p # pivot_frames ms"
| "pivot_frames (Pub_polygon_contact_estimate m # ms) = pivot_frames ms"

text \<open>The estimator calls that hand vision data to the estimator.\<close>

fun is_vision_input :: "estimator_call \<Rightarrow> bool" where
  "is_vision_input (Add_vision_estimate v) = True"
| "is_vision_input (Add_vision_constraints_no_hand_contact m) = True"
| "is_vision_input (Add_vision_constraints_hand_flush_contact m) = True"
| "is_vision_input c = False"

fun is_choose_vision_hypothesis :: "event \<Rightarrow> bool" where
  "is_choose_vision_hypothesis (Rsn (Choose_vision_hypothesis v k)) = True"
| "is_choose_vision_hypothesis e = False"

fun is_set_s_current :: "estimator_call \<Rightarrow> bool" where
  "is_set_s_current (Set_s_current s) = True"
| "is_set_s_current c = False"

fun is_no_contact_constraint :: "estimator_call \<Rightarrow> bool" where
  "is_no_contact_constraint
     (Add_kinematic_constraints_no_hand_contact_for_no_vision_assist p t f) = True"
| "is_no_contact_constraint c = False"

section \<open>The cascade as the specification words it\<close>

text \<open>
  The specification describes the arbitration as an ordered cascade in which the first
  matching branch wins, with these preconditions: the torque-boundary test reports true,
  corner contact is feasible and the contact-frame normal force exceeds 3.0 (corner); the
  torque-boundary test reports true and the normal force exceeds 3.0 (flush line); a new
  vision estimate is available and the reasoner selects a hypothesis (vision assist); the
  line-to-no-contact check fires, vision has been stale for over 1.0 s and the no-contact
  hypothesis set has exactly one hypothesis (no contact).
\<close>

definition spec_normal_force_exceeds :: "cycle_input \<Rightarrow> bool" where
  "spec_normal_force_exceeds inp \<longleftrightarrow>
     (case measured_contact_wrench inp of [] \<Rightarrow> False | f # rest \<Rightarrow> f > 3)"

definition spec_corner_precondition :: "cycle_input \<Rightarrow> loop_state \<Rightarrow> bool" where
  "spec_corner_precondition inp st \<longleftrightarrow>
     torque_cone_boundary_test inp = Some True \<and> corner_contact_is_feasible st
     \<and> spec_normal_force_exceeds inp"

definition spec_flush_precondition :: "cycle_input \<Rightarrow> bool" where
  "spec_flush_precondition inp \<longleftrightarrow>
     torque_cone_boundary_test inp = Some True \<and> spec_normal_force_exceeds inp"

definition spec_vision_assist_precondition :: "cycle_input \<Rightarrow> bool" where
  "spec_vision_assist_precondition inp \<longleftrightarrow>
     polygon_vision_estimate_has_new inp \<and> polygon_vision_estimate_dict inp \<noteq> None
     \<and> hypothesis_index inp \<noteq> None"

definition spec_no_contact_precondition :: "cycle_input \<Rightarrow> loop_state \<Rightarrow> bool" where
  "spec_no_contact_precondition inp st \<longleftrightarrow>
     line_line_to_no_contact_check inp \<and> time_since_last_vision_message st > 1
     \<and> num_hypothesis (hypothesis_no_contact inp) = 1"

definition spec_cascade :: "cycle_input \<Rightarrow> loop_state \<Rightarrow> mode" where
  "spec_cascade inp st =
     (if spec_corner_precondition inp st then CornerContactMode
      else if spec_flush_precondition inp then FlushLineContactMode
      else if spec_vision_assist_precondition inp then VisionAssistMode
      else if spec_no_contact_precondition inp st then NoContactMode
      else Idle)"

text \<open>The persistent state as the cascade of a cycle sees it: after the hysteresis and
  vision-recency updates of that cycle.\<close>

definition state_at_cascade :: "cycle_input \<Rightarrow> loop_state \<Rightarrow> loop_state" where
  "state_at_cascade inp st = update_vision_recency inp (update_corner_feasibility inp st)"

section \<open>Scenario inputs\<close>

text \<open>A cycle in which the hand presses on the object (normal force 5.0, torque-boundary
  test true), no vision message arrives and the reasoner finds corner contact infeasible.
  The other scenarios are variations of it.\<close>

definition pressing_input :: cycle_input where
  "pressing_input =
     \<lparr> friction_aer = [], friction_ber = [], friction_ael = [], friction_bel = [],
       measured_world_manipulation_wrench = [0, 0, 0],
       measured_contact_wrench = [5, 0, 0],
       hand_pose_pivot_estimator = [0, 0, 0],
       ee_pose_in_world_manipulation_homog =
         [[1, 0, 0, 0], [0, 1, 0, 0], [0, 0, 1, 0], [0, 0, 0, 1]],
       torque_cone_boundary_test = Some True,
       torque_cone_boundary_flag = None,
       sliding_state_msg = [],
       polygon_vision_estimate_has_new = False,
       polygon_vision_estimate_dict = None,
       time_now = 0,
       has_run_once = True,
       has_run_once_vision_assist = True,
       contact_vertices = Some [1],
       basic_estimate =
         Some \<lparr> vertex_positions_wm_current = [[0, 1, 1, 0], [0, 0, 1, 1]],
                mglcostheta_current = [0, 0, 0, 0],
                mglsintheta_current = [0, 0, 0, 0] \<rparr>,
       line_line_to_no_contact_check = False,
       temp_corner_contact_dict = \<lparr> is_feasible = False, contact_vertex = 1 \<rparr>,
       hypothesis_from_vision =
         \<lparr> hypothesis_obj_to_vision_map_list = [[0, 1, 2, 3]],
           hypothesis_theta_list = [0] \<rparr>,
       hypothesis_no_object_motion =
         \<lparr> num_hypothesis = 1, hypothesis_object_position_list = [[0, 0]],
           kin_hypothesis_theta_list = [0], hypothesis_ground_contact_face_list = [0] \<rparr>,
       hypothesis_hand_line_object_line_contact =
         \<lparr> num_hypothesis = 1, hypothesis_object_position_list = [[0, 0]],
           kin_hypothesis_theta_list = [0], hypothesis_ground_contact_face_list = [0] \<rparr>,
       hypothesis_no_contact =
         \<lparr> num_hypothesis = 1, hypothesis_object_position_list = [[0, 0]],
           kin_hypothesis_theta_list = [0], hypothesis_ground_contact_face_list = [0] \<rparr>,
       hypothesis_index = None,
       hand_contact_face = (2, 1 / 2) \<rparr>"

text \<open>The same cycle with a feasible corner contact at vertex 1.\<close>

definition corner_input :: cycle_input where
  "corner_input =
     pressing_input\<lparr> temp_corner_contact_dict :=
                       \<lparr> is_feasible = True, contact_vertex = 1 \<rparr> \<rparr>"

text \<open>A cycle without hand contact (torque-boundary test absent).\<close>

definition quiet_input :: cycle_input where
  "quiet_input = pressing_input\<lparr> torque_cone_boundary_test := None \<rparr>"

text \<open>A cycle without hand contact in which a vision message arrives and the reasoner
  selects hypothesis 0.\<close>

definition vision_input :: cycle_input where
  "vision_input =
     quiet_input\<lparr> polygon_vision_estimate_has_new := True,
                   polygon_vision_estimate_dict := Some [[0, 1, 1, 0], [0, 0, 1, 1]],
                   hypothesis_index := Some 0 \<rparr>"

text \<open>A cycle without hand contact, two seconds after the last vision message, in which
  the reasoner's line-to-no-contact check fires; and the same cycle with an ambiguous
  no-contact hypothesis set.\<close>

definition no_contact_input :: cycle_input where
  "no_contact_input =
     quiet_input\<lparr> line_line_to_no_contact_check := True, time_now := 1 \<rparr>"

definition ambiguous_no_contact_input :: cycle_input where
  "ambiguous_no_contact_input =
     no_contact_input\<lparr> hypothesis_no_contact :=
       \<lparr> num_hypothesis = 2, hypothesis_object_position_list = [[0, 0], [1, 0]],
         kin_hypothesis_theta_list = [0, 1], hypothesis_ground_contact_face_list = [0, 1] \<rparr> \<rparr>"

text \<open>The persistent state of a cycle that follows a vision-assisted or corner-contact
  cycle: the line-contact flag is false.\<close>

definition after_other_mode :: loop_state where
  "after_other_mode = (initial_state 0)\<lparr> prev_step_was_line_contact := False \<rparr>"

text \<open>The persistent state fourteen infeasible reports after a feasible one, corner
  contact still counted as feasible.\<close>

definition late_corner_state :: loop_state where
  "late_corner_state =
     (initial_state 0)\<lparr> corner_contact_is_feasible := True,
                         num_line_contact_detected_count := 14,
                         corner_contact_dict :=
                           Some \<lparr> is_feasible = True, contact_vertex = 1 \<rparr> \<rparr>"

text \<open>The pressing cycle with an estimator that returns no estimate, and with one that
  reports an empty list of contact vertices.\<close>

definition null_estimate_input :: cycle_input where
  "null_estimate_input = pressing_input\<lparr> basic_estimate := None \<rparr>"

definition empty_contact_input :: cycle_input where
  "empty_contact_input = pressing_input\<lparr> contact_vertices := Some [] \<rparr>"

definition no_contact_vertices_input :: cycle_input where
  "no_contact_vertices_input = pressing_input\<lparr> contact_vertices := None \<rparr>"

text \<open>The persistent state after a vision-assisted cycle at time 0, and pressing cycles
  0.1 s and 0.2 s (one fifth of a second) later in which no further vision message
  arrives: the first without a hypothesis chosen by the reasoner, the second with
  hypothesis 0 chosen. The last is a pressing cycle in which the reasoner would choose
  hypothesis 0, one second after the last vision message.\<close>

definition fresh_vision_state :: loop_state where
  "fresh_vision_state =
     (initial_state 0)\<lparr> t_vision_recent := 0,
                         time_since_last_vision_message := 0,
                         prev_step_was_line_contact := False,
                         vision_vertex_array := Some [[0, 1, 1, 0], [0, 0, 1, 1]],
                         vision_hypothesis_dict :=
                           Some \<lparr> hypothesis_obj_to_vision_map_list = [[0, 1, 2, 3]],
                                  hypothesis_theta_list = [0] \<rparr> \<rparr>"

definition undecided_flush_input :: cycle_input where
  "undecided_flush_input = pressing_input\<lparr> time_now := 1 / 10 \<rparr>"

definition boundary_flush_input :: cycle_input where
  "boundary_flush_input =
     pressing_input\<lparr> time_now := 2 / 10, hypothesis_index := Some 0 \<rparr>"

definition stale_flush_input :: cycle_input where
  "stale_flush_input = pressing_input\<lparr> time_now := 1, hypothesis_index := Some 0 \<rparr>"

section \<open>Properties\<close>

subsection \<open>Auxiliary facts\<close>

lemma fifth_below_fresh_vision_limit: "2 / 10 < fresh_vision_limit"
  by (simp add: fresh_vision_limit_def)

lemma py_bind_Inr_iff: "py_bind m f = Inr y \<longleftrightarrow> (\<exists>x. m = Inr x \<and> f x = Inr y)"
  by (cases m) (simp_all add: py_bind_def)

lemma py_get_zero: "py_get xs 0 = (case xs of [] \<Rightarrow> Inl IndexError | x # rest \<Rightarrow> Inr x)"
  by (cases xs) (simp_all add: py_get_def)

lemma estimator_calls_append:
  "estimator_calls (xs @ ys) = estimator_calls xs @ estimator_calls ys"
  by (induction xs rule: estimator_calls.induct) simp_all

lemma publications_append:
  "publications (xs @ ys) = publications xs @ publications ys"
  by (induction xs rule: publications.induct) simp_all

lemma normal_force_exceeds_spec:
  "normal_force_exceeds inp = Inr c \<Longrightarrow> c = spec_normal_force_exceeds inp"
  by (auto simp: normal_force_exceeds_def spec_normal_force_exceeds_def py_bind_Inr_iff
      py_get_zero split: list.splits)

lemma normal_force_exceeds_error:
  "normal_force_exceeds inp = Inl e \<Longrightarrow> \<not> spec_normal_force_exceeds inp"
  by (auto simp: normal_force_exceeds_def spec_normal_force_exceeds_def py_bind_def
      py_get_zero split: list.splits)

lemma corner_condition_spec:
  "corner_condition inp st = Inr c \<Longrightarrow> c = spec_corner_precondition inp st"
  by (auto simp: corner_condition_def spec_corner_precondition_def
      dest: normal_force_exceeds_spec split: if_splits)

lemma flush_condition_spec:
  "flush_condition inp = Inr c \<Longrightarrow> c = spec_flush_precondition inp"
  by (auto simp: flush_condition_def spec_flush_precondition_def
      dest: normal_force_exceeds_spec split: if_splits)

text \<open>Success of a cycle, taken apart.\<close>

lemma cycle_InrE:
  assumes "cycle n inp st = Inr r"
  obtains wr wl b published where
    "wall_contact_bool (friction_aer inp) (friction_ber inp)
       (measured_world_manipulation_wrench inp) = Inr wr"
    "wall_contact_bool (friction_ael inp) (friction_bel inp)
       (measured_world_manipulation_wrench inp) = Inr wl"
    "arbitrate n inp (wr \<or> wl) (state_at_cascade inp st) = Inr b"
    "(if br_can_run_estimate b
      then publish_estimate inp (wall_flag_of wr wl) (br_hand_contact_indices b)
      else Inr []) = Inr published"
    "state_out r = br_state b"
    "log r = reasoner_updates inp @ corner_feasibility_events inp
             @ vision_recency_events inp @ br_events b @ published"
    "mode_fired r = br_mode b"
  using assms
  by (auto simp: cycle_def py_bind_Inr_iff Let_def state_at_cascade_def)

text \<open>The five ways in which the cascade returns.\<close>

lemma arbitrate_cases:
  assumes "arbitrate n inp w st = Inr b"
  obtains
    (corner) "spec_corner_precondition inp st" "corner_branch inp w st = Inr b"
  | (flush) "\<not> spec_corner_precondition inp st" "spec_flush_precondition inp"
      "flush_branch n inp w st = Inr b"
  | (vision) "\<not> spec_corner_precondition inp st" "\<not> spec_flush_precondition inp"
      "vision_message_arrived inp" "vision_branch inp w st = Inr b"
  | (no_contact) "\<not> spec_corner_precondition inp st" "\<not> spec_flush_precondition inp"
      "\<not> vision_message_arrived inp" "line_line_to_no_contact_check inp"
      "vision_is_long_stale st" "no_contact_branch inp st = Inr b"
  | (idle) "\<not> spec_corner_precondition inp st" "\<not> spec_flush_precondition inp"
      "\<not> vision_message_arrived inp"
      "\<not> (line_line_to_no_contact_check inp \<and> vision_is_long_stale st)"
      "b = idle_result st"
proof -
  from assms obtain c1 where c1: "corner_condition inp st = Inr c1"
    and rest1: "(if c1 then corner_branch inp w st
       else py_bind (flush_condition inp) (\<lambda>c2.
          if c2 then flush_branch n inp w st
          else if vision_message_arrived inp then vision_branch inp w st
          else if line_line_to_no_contact_check inp \<and> vision_is_long_stale st
               then no_contact_branch inp st
          else Inr (idle_result st))) = Inr b"
    by (auto simp: arbitrate_def py_bind_Inr_iff)
  have s1: "c1 = spec_corner_precondition inp st" by (rule corner_condition_spec [OF c1])
  show thesis
  proof (cases c1)
    case True
    with rest1 s1 show thesis by (auto intro: corner)
  next
    case False
    with rest1 obtain c2 where c2: "flush_condition inp = Inr c2"
      and rest2: "(if c2 then flush_branch n inp w st
          else if vision_message_arrived inp then vision_branch inp w st
          else if line_line_to_no_contact_check inp \<and> vision_is_long_stale st
               then no_contact_branch inp st
          else Inr (idle_result st)) = Inr b"
      by (auto simp: py_bind_Inr_iff)
    have s2: "c2 = spec_flush_precondition inp" by (rule flush_condition_spec [OF c2])
    from False s1 have n1: "\<not> spec_corner_precondition inp st" by simp
    show thesis
    proof (cases c2)
      case True
      with rest2 s2 n1 show thesis by (auto intro: flush)
    next
      case c2F: False
      with s2 have n2: "\<not> spec_flush_precondition inp" by simp
      from rest2 c2F n1 n2 show thesis
        by (auto split: if_splits intro: vision no_contact idle)
    qed
  qed
qed

lemma corner_vision_fusion_forms:
  assumes "corner_vision_fusion inp st = Inr f"
  shows "list_all is_vision_input (estimator_calls f)"
    and "publications f = []"
    and "filter is_choose_vision_hypothesis f = [] \<longleftrightarrow> \<not> vision_is_fresh st"
    and "hypothesis_index inp = None \<Longrightarrow> estimator_calls f = []"
  using assms
  by (auto simp: corner_vision_fusion_def py_bind_Inr_iff Let_def
      split: if_splits option.splits)

lemma flush_vision_fusion_forms:
  assumes "flush_vision_fusion inp st = Inr f"
  shows "list_all is_vision_input (estimator_calls f)"
    and "publications f = []"
    and "filter is_choose_vision_hypothesis f = [] \<longleftrightarrow> \<not> vision_is_fresh st"
    and "vision_is_fresh st \<Longrightarrow> hypothesis_index inp = None \<Longrightarrow>
           \<exists>v k. vision_vertex_array st = Some v \<and> vision_hypothesis_dict st = Some k
             \<and> f = [Rsn (Choose_vision_hypothesis k (hypothesis_hand_line_object_line_contact inp)),
                    Est (Add_vision_estimate v)]"
  using assms
  by (auto simp: flush_vision_fusion_def py_bind_Inr_iff Let_def py_var_def
      split: if_splits option.splits)

lemma vision_inputs_no_increment:
  "list_all is_vision_input xs \<Longrightarrow> count_list xs Increment_time = 0"
  by (induction xs) auto

lemma vision_inputs_no_s_current:
  "list_all is_vision_input xs \<Longrightarrow> filter is_set_s_current xs = []"
  by (induction xs) (auto elim: is_vision_input.elims)

lemma vision_inputs_no_no_contact_constraint:
  "list_all is_vision_input xs \<Longrightarrow> filter is_no_contact_constraint xs = []"
  by (induction xs) (auto elim: is_vision_input.elims)

text \<open>What each block of the cascade returns.\<close>

lemma corner_branch_facts:
  assumes "corner_branch inp w st = Inr b"
  shows "br_mode b = CornerContactMode" and "br_can_run_estimate b"
    and "br_state b = st\<lparr> prev_step_was_line_contact := False \<rparr>"
    and "count_list (estimator_calls (br_events b)) Increment_time = 1"
    and "publications (br_events b) = []"
    and "filter is_no_contact_constraint (estimator_calls (br_events b)) = []"
    and "filter is_choose_vision_hypothesis (br_events b) = [] \<longleftrightarrow> \<not> vision_is_fresh st"
proof -
  from assms obtain d f where d: "corner_contact_dict st = Some d"
    and f: "corner_vision_fusion inp (st\<lparr> prev_step_was_line_contact := False \<rparr>) = Inr f"
    and b: "b = \<lparr> br_state = st\<lparr> prev_step_was_line_contact := False \<rparr>,
                   br_events =
                     [Est Increment_time,
                      Est (Add_hand_pose_measurement (hand_pose_pivot_estimator inp)),
                      Est (Add_hand_wrench_measurement (measured_world_manipulation_wrench inp)),
                      Est (Add_sliding_state (sliding_state_msg inp)),
                      Est (Update_wall_contact_state w),
                      Est (Add_kinematic_constraints_object_corner_hand_line_contact d),
                      Est (Set_current_contact_face None),
                      Rsn Compute_hypothesis_object_poses_assuming_no_object_motion]
                     @ f,
                   br_can_run_estimate = True,
                   br_hand_contact_indices = [contact_vertex d],
                   br_mode = CornerContactMode \<rparr>"
    by (auto simp: corner_branch_def py_bind_Inr_iff Let_def split: option.splits)
  note ff = corner_vision_fusion_forms [OF f]
  show "br_mode b = CornerContactMode" "br_can_run_estimate b"
    "br_state b = st\<lparr> prev_step_was_line_contact := False \<rparr>"
    by (simp_all add: b)
  show "count_list (estimator_calls (br_events b)) Increment_time = 1"
    using vision_inputs_no_increment [OF ff(1)] by (simp add: b)
  show "publications (br_events b) = []"
    using ff(2) by (simp add: b)
  show "filter is_no_contact_constraint (estimator_calls (br_events b)) = []"
    using vision_inputs_no_no_contact_constraint [OF ff(1)] by (simp add: b)
  show "filter is_choose_vision_hypothesis (br_events b) = [] \<longleftrightarrow> \<not> vision_is_fresh st"
    using ff(3) by (simp add: b vision_is_fresh_def)
qed

lemma flush_branch_facts:
  assumes "flush_branch n inp w st = Inr b"
  shows "br_mode b = FlushLineContactMode" and "br_can_run_estimate b"
    and "br_state b = st\<lparr> prev_step_was_line_contact := True \<rparr>"
    and "count_list (estimator_calls (br_events b)) Increment_time = 1"
    and "publications (br_events b) = []"
    and "filter is_no_contact_constraint (estimator_calls (br_events b)) = []"
    and "filter is_choose_vision_hypothesis (br_events b) = [] \<longleftrightarrow> \<not> vision_is_fresh st"
    and "filter is_set_s_current (estimator_calls (br_events b)) =
           (if prev_step_was_line_contact st then []
            else [Set_s_current (snd (hand_contact_face inp))])"
    and "vision_is_fresh st \<Longrightarrow> hypothesis_index inp = None \<Longrightarrow>
           \<exists>v. vision_vertex_array st = Some v
             \<and> filter is_vision_input (estimator_calls (br_events b)) = [Add_vision_estimate v]"
proof -
  from assms obtain hand f where
    f: "flush_vision_fusion inp st = Inr f"
    and b: "b = \<lparr> br_state = st\<lparr> prev_step_was_line_contact := True \<rparr>,
               br_events =
                 [Est Increment_time,
                  Rsn Compute_hand_contact_face,
                  Est (Set_current_contact_face (Some (fst (hand_contact_face inp))))]
                 @ (if \<not> prev_step_was_line_contact st
                    then [Est (Set_s_current (snd (hand_contact_face inp)))] else [])
                 @ [Est (Add_hand_pose_measurement (hand_pose_pivot_estimator inp)),
                    Est (Add_hand_wrench_measurement (measured_world_manipulation_wrench inp)),
                    Est (Add_sliding_state (sliding_state_msg inp)),
                    Est (Update_wall_contact_state w),
                    Est Add_kinematic_constraints_hand_flush_contact,
                    Rsn Compute_hypothesis_object_poses_assuming_hand_line_object_line_contact]
                 @ f,
               br_can_run_estimate = True,
               br_hand_contact_indices = hand,
               br_mode = FlushLineContactMode \<rparr>"
    by (auto simp: flush_branch_def py_bind_Inr_iff Let_def)
  note ff = flush_vision_fusion_forms [OF f]
  show "br_mode b = FlushLineContactMode" "br_can_run_estimate b"
    "br_state b = st\<lparr> prev_step_was_line_contact := True \<rparr>"
    by (simp_all add: b)
  show "count_list (estimator_calls (br_events b)) Increment_time = 1"
    using vision_inputs_no_increment [OF ff(1)] by (simp add: b estimator_calls_append)
  show "publications (br_events b) = []"
    using ff(2) by (simp add: b publications_append)
  show "filter is_no_contact_constraint (estimator_calls (br_events b)) = []"
    using vision_inputs_no_no_contact_constraint [OF ff(1)]
    by (simp add: b estimator_calls_append)
  show "filter is_choose_vision_hypothesis (br_events b) = [] \<longleftrightarrow> \<not> vision_is_fresh st"
    using ff(3) by (simp add: b)
  show "filter is_set_s_current (estimator_calls (br_events b)) =
           (if prev_step_was_line_contact st then []
            else [Set_s_current (snd (hand_contact_face inp))])"
    using vision_inputs_no_s_current [OF ff(1)] by (simp add: b estimator_calls_append)
  show "\<exists>v. vision_vertex_array st = Some v
             \<and> filter is_vision_input (estimator_calls (br_events b)) = [Add_vision_estimate v]"
    if "vision_is_fresh st" "hypothesis_index inp = None"
    using ff(4) [OF that] by (auto simp: b estimator_calls_append)
qed

lemma vision_branch_facts:
  assumes "vision_branch inp w st = Inr b"
  shows "br_mode b = (if hypothesis_index inp = None then Idle else VisionAssistMode)"
    and "br_can_run_estimate b \<longleftrightarrow> hypothesis_index inp \<noteq> None"
    and "br_state b = (if hypothesis_index inp = None then st
                       else st\<lparr> prev_step_was_line_contact := False \<rparr>)"
    and "count_list (estimator_calls (br_events b)) Increment_time =
           (if hypothesis_index inp = None then 0 else 1)"
    and "hypothesis_index inp = None \<Longrightarrow> estimator_calls (br_events b) = []"
    and "publications (br_events b) = []"
    and "filter is_no_contact_constraint (estimator_calls (br_events b)) = []"
  using assms
  by (auto simp: vision_branch_def py_bind_Inr_iff Let_def split: option.splits)

lemma no_contact_branch_facts:
  assumes "no_contact_branch inp st = Inr b"
  shows "br_mode b = (if num_hypothesis (hypothesis_no_contact inp) = 1
                      then NoContactMode else Idle)"
    and "br_can_run_estimate b \<longleftrightarrow> num_hypothesis (hypothesis_no_contact inp) = 1"
    and "br_state b = (if num_hypothesis (hypothesis_no_contact inp) = 1
                       then st\<lparr> prev_step_was_line_contact := False \<rparr> else st)"
    and "count_list (estimator_calls (br_events b)) Increment_time =
           (if num_hypothesis (hypothesis_no_contact inp) = 1 then 1 else 0)"
    and "num_hypothesis (hypothesis_no_contact inp) \<noteq> 1 \<Longrightarrow> estimator_calls (br_events b) = []"
    and "publications (br_events b) = []"
  using assms
  by (auto simp: no_contact_branch_def py_bind_Inr_iff Let_def split: if_splits)

lemma pivot_frame_events_facts:
  assumes "pivot_frame_events inp e hfcw = Inr evs"
  shows "estimator_calls evs = []"
    and "contact_vertices inp = None \<Longrightarrow> evs = []"
    and "contact_vertices inp = Some cv \<Longrightarrow>
           \<exists>ci row_n pn row_t pt z.
             py_get cv 0 = Inr ci
           \<and> py_get (vertex_positions_wm_current e) 0 = Inr row_n \<and> py_get row_n ci = Inr pn
           \<and> py_get (vertex_positions_wm_current e) 1 = Inr row_t \<and> py_get row_t ci = Inr pt
           \<and> py_get hfcw 2 = Inr z
           \<and> evs = [Pub (Pub_pivot_frame_estimated [pn, pt, z])]"
  using assms
  by (auto simp: pivot_frame_events_def py_bind_Inr_iff split: option.splits)

lemma publish_estimate_form:
  assumes "publish_estimate inp wflag hand = Inr evs"
  obtains hfcw pubs where
    "np_dot (ee_pose_in_world_manipulation_homog inp) hand_front_center = Inr hfcw"
    "evs = [Est Compute_basic_estimate, Rsn (Update_previous_estimate (basic_estimate inp))]
           @ pubs"
    "estimator_calls pubs = []"
    "basic_estimate inp = None \<Longrightarrow> pubs = []"
    "\<And>e. basic_estimate inp = Some e \<Longrightarrow>
       \<exists>pivot msg. pivot_frame_events inp e hfcw = Inr pivot
         \<and> pubs = pivot @ [Pub (Pub_polygon_contact_estimate msg)]"
proof -
  from assms obtain hfcw where
    h: "np_dot (ee_pose_in_world_manipulation_homog inp) hand_front_center = Inr hfcw"
    and rest: "(case basic_estimate inp of
          None \<Rightarrow> Inr [Est Compute_basic_estimate,
                     Rsn (Update_previous_estimate (basic_estimate inp))]
        | Some e \<Rightarrow>
            py_bind (py_get (vertex_positions_wm_current e) 0) (\<lambda>heights.
            py_bind (pivot_frame_events inp e hfcw) (\<lambda>pivot.
            py_bind (polygon_message inp e hfcw wflag hand) (\<lambda>msg.
            Inr ([Est Compute_basic_estimate,
                     Rsn (Update_previous_estimate (basic_estimate inp))] @ pivot @ [Pub (Pub_polygon_contact_estimate msg)]))))) = Inr evs"
    by (auto simp: publish_estimate_def py_bind_Inr_iff Let_def)
  show thesis
  proof (cases "basic_estimate inp")
    case None
    with rest have "evs = [Est Compute_basic_estimate,
                     Rsn (Update_previous_estimate (basic_estimate inp))] @ []" by auto
    with h None show thesis by (intro that [of hfcw "[]"]) auto
  next
    case (Some e)
    with rest obtain pivot msg where p: "pivot_frame_events inp e hfcw = Inr pivot"
      and evs: "evs = [Est Compute_basic_estimate,
                     Rsn (Update_previous_estimate (basic_estimate inp))] @ (pivot @ [Pub (Pub_polygon_contact_estimate msg)])"
      by (auto simp: py_bind_Inr_iff)
    show thesis
      using h evs p Some pivot_frame_events_facts(1) [OF p]
      by (intro that [of hfcw "pivot @ [Pub (Pub_polygon_contact_estimate msg)]"])
         (auto simp: estimator_calls_append)
  qed
qed

lemma arbitrate_facts:
  assumes "arbitrate n inp w st = Inr b"
  shows "br_can_run_estimate b \<longleftrightarrow> br_mode b \<noteq> Idle"
    and "count_list (estimator_calls (br_events b)) Increment_time =
           (if br_mode b = Idle then 0 else 1)"
    and "br_mode b = Idle \<Longrightarrow> estimator_calls (br_events b) = []"
    and "publications (br_events b) = []"
    and "br_state b = st\<lparr> prev_step_was_line_contact :=
                             prev_step_was_line_contact (br_state b) \<rparr>"
    and "br_mode b = Idle \<Longrightarrow> br_state b = st"
proof -
  have all: "(br_can_run_estimate b \<longleftrightarrow> br_mode b \<noteq> Idle)
    \<and> count_list (estimator_calls (br_events b)) Increment_time =
           (if br_mode b = Idle then 0 else 1)
    \<and> (br_mode b = Idle \<longrightarrow> estimator_calls (br_events b) = [])
    \<and> publications (br_events b) = []
    \<and> br_state b = st\<lparr> prev_step_was_line_contact :=
                             prev_step_was_line_contact (br_state b) \<rparr>
    \<and> (br_mode b = Idle \<longrightarrow> br_state b = st)"
    using assms
  proof (cases rule: arbitrate_cases)
    case corner
    from corner_branch_facts [OF corner(2)] show ?thesis by simp
  next
    case flush
    from flush_branch_facts [OF flush(3)] show ?thesis by simp
  next
    case vision
    from vision_branch_facts [OF vision(4)] show ?thesis by simp
  next
    case no_contact
    from no_contact_branch_facts [OF no_contact(6)] show ?thesis by simp
  next
    case idle
    then show ?thesis by (simp add: idle_result_def)
  qed
  from all show "br_can_run_estimate b \<longleftrightarrow> br_mode b \<noteq> Idle" by simp
  from all show "count_list (estimator_calls (br_events b)) Increment_time =
           (if br_mode b = Idle then 0 else 1)" by simp
  from all show "br_mode b = Idle \<Longrightarrow> estimator_calls (br_events b) = []" by simp
  from all show "publications (br_events b) = []" by simp
  from all show "br_state b = st\<lparr> prev_step_was_line_contact :=
                             prev_step_was_line_contact (br_state b) \<rparr>" by simp
  from all show "br_mode b = Idle \<Longrightarrow> br_state b = st" by simp
qed

lemma arbitrate_mode:
  assumes "arbitrate n inp w st = Inr b"
    and "vision_message_arrived inp \<Longrightarrow> \<not> vision_is_long_stale st"
  shows "br_mode b = spec_cascade inp st"
  using assms(1)
proof (cases rule: arbitrate_cases)
  case corner
  from corner_branch_facts(1) [OF corner(2)] corner(1) show ?thesis
    by (simp add: spec_cascade_def)
next
  case flush
  from flush_branch_facts(1) [OF flush(3)] flush(1,2) show ?thesis
    by (simp add: spec_cascade_def)
next
  case vision
  from vision_branch_facts(1) [OF vision(4)] vision(1,2,3) assms(2) show ?thesis
    by (simp add: spec_cascade_def spec_vision_assist_precondition_def
        spec_no_contact_precondition_def vision_message_arrived_def vision_is_long_stale_def)
next
  case no_contact
  from no_contact_branch_facts(1) [OF no_contact(6)] no_contact(1-5) show ?thesis
    by (simp add: spec_cascade_def spec_vision_assist_precondition_def
        spec_no_contact_precondition_def vision_message_arrived_def vision_is_long_stale_def)
next
  case idle
  then show ?thesis
    by (auto simp: spec_cascade_def spec_vision_assist_precondition_def idle_result_def
        spec_no_contact_precondition_def vision_message_arrived_def vision_is_long_stale_def)
qed

lemma state_at_cascade_fields:
  "corner_contact_is_feasible (state_at_cascade inp st) =
     corner_contact_is_feasible (update_corner_feasibility inp st)"
  "num_line_contact_detected_count (state_at_cascade inp st) =
     num_line_contact_detected_count (update_corner_feasibility inp st)"
  "corner_contact_dict (state_at_cascade inp st) =
     corner_contact_dict (update_corner_feasibility inp st)"
  "prev_step_was_line_contact (state_at_cascade inp st) = prev_step_was_line_contact st"
  "time_since_last_vision_message (state_at_cascade inp st) =
     (if vision_message_arrived inp then 0 else time_now inp - t_vision_recent st)"
  "t_vision_recent (state_at_cascade inp st) =
     (if vision_message_arrived inp then time_now inp else t_vision_recent st)"
  by (simp_all add: state_at_cascade_def update_vision_recency_def
      update_corner_feasibility_def corner_feasibility_report_def Let_def)

lemma fresh_vision_not_long_stale:
  "vision_message_arrived inp \<Longrightarrow> \<not> vision_is_long_stale (state_at_cascade inp st)"
  by (simp add: vision_is_long_stale_def state_at_cascade_fields)

lemma collaborator_updates_no_estimator_calls:
  "estimator_calls (reasoner_updates inp) = []"
  "estimator_calls (corner_feasibility_events inp) = []"
  "estimator_calls (vision_recency_events inp) = []"
  "publications (reasoner_updates inp) = []"
  "publications (corner_feasibility_events inp) = []"
  "publications (vision_recency_events inp) = []"
  by (simp_all add: reasoner_updates_def corner_feasibility_events_def
      vision_recency_events_def)

text \<open>The log of a completed cycle: the calls up to the end of the cascade, then, when a
  mode fired, the estimate, the reasoner's update and the publications.\<close>

lemma cycle_log_form:
  assumes "cycle n inp st = Inr r"
  obtains wr wl b pre pubs where
    "arbitrate n inp (wr \<or> wl) (state_at_cascade inp st) = Inr b"
    "state_out r = br_state b" "mode_fired r = br_mode b"
    "pre = reasoner_updates inp @ corner_feasibility_events inp
           @ vision_recency_events inp @ br_events b"
    "publications pre = []"
    "estimator_calls pre = estimator_calls (br_events b)"
    "br_mode b = Idle \<Longrightarrow> log r = pre"
    "br_mode b \<noteq> Idle \<Longrightarrow>
       log r = pre @ [Est Compute_basic_estimate,
                      Rsn (Update_previous_estimate (basic_estimate inp))] @ pubs"
    "estimator_calls pubs = []"
    "basic_estimate inp = None \<Longrightarrow> pubs = []"
    "\<And>e. br_mode b \<noteq> Idle \<Longrightarrow> basic_estimate inp = Some e \<Longrightarrow>
       \<exists>hfcw pivot msg.
         np_dot (ee_pose_in_world_manipulation_homog inp) hand_front_center = Inr hfcw
       \<and> pivot_frame_events inp e hfcw = Inr pivot
       \<and> pubs = pivot @ [Pub (Pub_polygon_contact_estimate msg)]"
  using assms
proof (cases rule: cycle_InrE)
  case (1 wr wl b published)
  note af = arbitrate_facts [OF 1(3)]
  let ?pre = "reasoner_updates inp @ corner_feasibility_events inp
           @ vision_recency_events inp @ br_events b"
  have p1: "publications ?pre = []"
    by (simp add: publications_append collaborator_updates_no_estimator_calls af(4))
  have p2: "estimator_calls ?pre = estimator_calls (br_events b)"
    by (simp add: estimator_calls_append collaborator_updates_no_estimator_calls)
  have lg: "log r = ?pre @ published"
    by (simp add: 1(6))
  show thesis
  proof (cases "br_mode b = Idle")
    case True
    with af(1) 1(4) have "published = []" by simp
    with True lg show thesis
      using 1(3,5,7) p1 p2 by (intro that [of wr wl b ?pre "[]"]) simp_all
  next
    case False
    with af(1) 1(4) have
      "publish_estimate inp (wall_flag_of wr wl) (br_hand_contact_indices b) = Inr published"
      by simp
    then show thesis
    proof (cases rule: publish_estimate_form)
      case (1 hfcw pubs)
      have ex: "\<exists>hfcw pivot msg.
         np_dot (ee_pose_in_world_manipulation_homog inp) hand_front_center = Inr hfcw
       \<and> pivot_frame_events inp e hfcw = Inr pivot
       \<and> pubs = pivot @ [Pub (Pub_polygon_contact_estimate msg)]"
        if "basic_estimate inp = Some e" for e
        using 1(5) [OF that] 1(1) by blast
      show thesis
        using \<open>arbitrate n inp (wr \<or> wl) (state_at_cascade inp st) = Inr b\<close>
          \<open>state_out r = br_state b\<close> \<open>mode_fired r = br_mode b\<close> p1 p2 lg 1(2,3,4) ex
          \<open>br_mode b \<noteq> Idle\<close>
        by (intro that [of wr wl b ?pre pubs]) simp_all
    qed
  qed
qed

lemma arbitrate_flush_branch:
  assumes "arbitrate n inp w st = Inr b" and "br_mode b = FlushLineContactMode"
  shows "flush_branch n inp w st = Inr b"
  using assms(1)
proof (cases rule: arbitrate_cases)
  case corner
  from corner_branch_facts(1) [OF corner(2)] assms(2) show ?thesis by simp
next
  case flush
  then show ?thesis by simp
next
  case vision
  from vision_branch_facts(1) [OF vision(4)] assms(2) show ?thesis by (simp split: if_splits)
next
  case no_contact
  from no_contact_branch_facts(1) [OF no_contact(6)] assms(2) show ?thesis
    by (simp split: if_splits)
next
  case idle
  with assms(2) show ?thesis by (simp add: idle_result_def)
qed

lemma arbitrate_corner_branch:
  assumes "arbitrate n inp w st = Inr b" and "br_mode b = CornerContactMode"
  shows "corner_branch inp w st = Inr b"
  using assms(1)
proof (cases rule: arbitrate_cases)
  case corner
  then show ?thesis by simp
next
  case flush
  from flush_branch_facts(1) [OF flush(3)] assms(2) show ?thesis by simp
next
  case vision
  from vision_branch_facts(1) [OF vision(4)] assms(2) show ?thesis by (simp split: if_splits)
next
  case no_contact
  from no_contact_branch_facts(1) [OF no_contact(6)] assms(2) show ?thesis
    by (simp split: if_splits)
next
  case idle
  with assms(2) show ?thesis by (simp add: idle_result_def)
qed

lemma flush_cycle_facts:
  assumes "cycle n inp st = Inr r" and "mode_fired r = FlushLineContactMode"
  shows "filter is_set_s_current (estimator_calls (log r)) =
           (if prev_step_was_line_contact st then []
            else [Set_s_current (snd (hand_contact_face inp))])
       \<and> prev_step_was_line_contact (state_out r)"
  using assms(1)
proof (cases rule: cycle_log_form)
  case (1 wr wl b pre pubs)
  from assms(2) 1(3) have m: "br_mode b = FlushLineContactMode" by simp
  note ff = flush_branch_facts [OF arbitrate_flush_branch [OF 1(1) m]]
  from m have lg: "log r = pre @ [Est Compute_basic_estimate,
                      Rsn (Update_previous_estimate (basic_estimate inp))] @ pubs"
    by (intro 1(8)) simp
  have "filter is_set_s_current (estimator_calls (log r))
      = filter is_set_s_current (estimator_calls (br_events b))"
    by (simp add: lg estimator_calls_append 1(6,9))
  with ff(8) ff(3) show ?thesis
    by (simp add: 1(2) state_at_cascade_fields)
qed

lemma corner_cycle_facts:
  assumes "cycle n inp st = Inr r" and "mode_fired r = CornerContactMode"
  shows "\<not> prev_step_was_line_contact (state_out r)"
  using assms(1)
proof (cases rule: cycle_log_form)
  case (1 wr wl b pre pubs)
  from assms(2) 1(3) have m: "br_mode b = CornerContactMode" by simp
  from corner_branch_facts(3) [OF arbitrate_corner_branch [OF 1(1) m]] show ?thesis
    by (simp add: 1(2))
qed

lemma pivot_frames_append:
  "pivot_frames (xs @ ys) = pivot_frames xs @ pivot_frames ys"
  by (induction xs rule: pivot_frames.induct) simp_all

lemma flush_cycle_vision_inputs:
  assumes "cycle n inp st = Inr r" and "mode_fired r = FlushLineContactMode"
    and "time_since_last_vision_message (state_out r) < 2 / 10"
    and "hypothesis_index inp = None"
  shows "\<exists>v. vision_vertex_array (state_out r) = Some v
           \<and> filter is_vision_input (estimator_calls (log r)) = [Add_vision_estimate v]"
  using assms(1)
proof (cases rule: cycle_log_form)
  case (1 wr wl b pre pubs)
  from assms(2) 1(3) have m: "br_mode b = FlushLineContactMode" by simp
  note ff = flush_branch_facts [OF arbitrate_flush_branch [OF 1(1) m]]
  from m have lg: "log r = pre @ [Est Compute_basic_estimate,
                      Rsn (Update_previous_estimate (basic_estimate inp))] @ pubs"
    by (intro 1(8)) simp
  have calls: "filter is_vision_input (estimator_calls (log r))
      = filter is_vision_input (estimator_calls (br_events b))"
    by (simp add: lg estimator_calls_append 1(6,9))
  from assms(3) have fresh: "vision_is_fresh (state_at_cascade inp st)"
    using fifth_below_fresh_vision_limit by (simp add: 1(2) ff(3) vision_is_fresh_def)
  from ff(9) [OF fresh assms(4)] show ?thesis
    by (simp add: calls 1(2) ff(3))
qed

text \<open>The sibling block: a corner-contact cycle hands no vision data to the estimator
  when the reasoner chooses no hypothesis.\<close>

lemma corner_cycle_no_vision_without_hypothesis:
  assumes "cycle n inp st = Inr r" and "mode_fired r = CornerContactMode"
    and "hypothesis_index inp = None"
  shows "filter is_vision_input (estimator_calls (log r)) = []"
  using assms(1)
proof (cases rule: cycle_log_form)
  case (1 wr wl b pre pubs)
  from assms(2) 1(3) have m: "br_mode b = CornerContactMode" by simp
  from m have lg: "log r = pre @ [Est Compute_basic_estimate,
                      Rsn (Update_previous_estimate (basic_estimate inp))] @ pubs"
    by (intro 1(8)) simp
  have calls: "filter is_vision_input (estimator_calls (log r))
      = filter is_vision_input (estimator_calls (br_events b))"
    by (simp add: lg estimator_calls_append 1(6,9))
  from arbitrate_corner_branch [OF 1(1) m] obtain d f where
    f: "corner_vision_fusion inp
          ((state_at_cascade inp st)\<lparr> prev_step_was_line_contact := False \<rparr>) = Inr f"
    and ev: "estimator_calls (br_events b) =
               [Increment_time,
                Add_hand_pose_measurement (hand_pose_pivot_estimator inp),
                Add_hand_wrench_measurement (measured_world_manipulation_wrench inp),
                Add_sliding_state (sliding_state_msg inp),
                Update_wall_contact_state (wr \<or> wl),
                Add_kinematic_constraints_object_corner_hand_line_contact d,
                Set_current_contact_face None] @ estimator_calls f"
    by (auto simp: corner_branch_def py_bind_Inr_iff Let_def estimator_calls_append
        split: option.splits)
  from corner_vision_fusion_forms(4) [OF f assms(3)] show ?thesis
    by (simp add: calls ev)
qed


lemma cycle_hysteresis_fields:
  assumes "cycle n inp st = Inr r"
  shows "corner_contact_is_feasible (state_out r) =
           corner_contact_is_feasible (update_corner_feasibility inp st)"
    and "num_line_contact_detected_count (state_out r) =
           num_line_contact_detected_count (update_corner_feasibility inp st)"
    and "corner_contact_dict (state_out r) =
           corner_contact_dict (update_corner_feasibility inp st)"
  using assms
proof (atomize (full), cases rule: cycle_InrE)
  case (1 wr wl b published)
  have "state_out r = (state_at_cascade inp st)\<lparr> prev_step_was_line_contact :=
                             prev_step_was_line_contact (br_state b) \<rparr>"
    using arbitrate_facts(5) [OF 1(3)] by (simp add: 1(5))
  then show "corner_contact_is_feasible (state_out r) =
           corner_contact_is_feasible (update_corner_feasibility inp st)
    \<and> num_line_contact_detected_count (state_out r) =
           num_line_contact_detected_count (update_corner_feasibility inp st)
    \<and> corner_contact_dict (state_out r) =
           corner_contact_dict (update_corner_feasibility inp st)"
    by (simp add: state_at_cascade_fields)
qed

lemma infeasible_report_step:
  assumes "\<not> is_feasible d" and "num_line_contact_detected_count st = enat k"
    and "corner_contact_is_feasible st \<longleftrightarrow> k \<le> 15"
  shows "num_line_contact_detected_count (corner_feasibility_report d st) = enat (Suc k)"
    and "corner_contact_is_feasible (corner_feasibility_report d st) \<longleftrightarrow> Suc k \<le> 15"
  using assms
  by (auto simp: corner_feasibility_report_def Let_def one_enat_def numeral_eq_enat)

lemma infeasible_run:
  assumes "run_cycles n inps st = Inr st'"
    and "list_all (\<lambda>i. has_run_once i \<and> \<not> is_feasible (temp_corner_contact_dict i)) inps"
    and "num_line_contact_detected_count st = enat k"
    and "corner_contact_is_feasible st \<longleftrightarrow> k \<le> 15"
  shows "num_line_contact_detected_count st' = enat (k + length inps)
       \<and> (corner_contact_is_feasible st' \<longleftrightarrow> k + length inps \<le> 15)"
  using assms
proof (induction inps arbitrary: st k)
  case Nil
  then show ?case by simp
next
  case (Cons inp inps)
  from Cons.prems(1) obtain r where r: "cycle n inp st = Inr r"
    and rest: "run_cycles n inps (state_out r) = Inr st'"
    by (auto simp: py_bind_Inr_iff)
  from Cons.prems(2) have h: "has_run_once inp" "\<not> is_feasible (temp_corner_contact_dict inp)"
    and all: "list_all (\<lambda>i. has_run_once i \<and> \<not> is_feasible (temp_corner_contact_dict i)) inps"
    by simp_all
  have u: "update_corner_feasibility inp st
             = corner_feasibility_report (temp_corner_contact_dict inp) st"
    using h(1) by (simp add: update_corner_feasibility_def)
  note step = infeasible_report_step [OF h(2) Cons.prems(3) Cons.prems(4)]
  have c: "num_line_contact_detected_count (state_out r) = enat (Suc k)"
    using cycle_hysteresis_fields(2) [OF r] step(1) by (simp add: u)
  have f: "corner_contact_is_feasible (state_out r) \<longleftrightarrow> Suc k \<le> 15"
    using cycle_hysteresis_fields(1) [OF r] step(2) by (simp add: u)
  from Cons.IH [OF rest all c f] show ?case by simp
qed






text \<open>Unfolding every definition of the model evaluates a cycle on a concrete input.\<close>

lemmas eval_defs = cycle_def arbitrate_def py_bind_def py_get_def py_var_def
  wall_contact_bool_def wall_flag_of_def np_dot_def np_greater_def
  update_corner_feasibility_def corner_feasibility_report_def update_vision_recency_def
  vision_message_arrived_def corner_condition_def flush_condition_def normal_force_exceeds_def
  corner_branch_def flush_branch_def vision_branch_def no_contact_branch_def idle_result_def
  corner_vision_fusion_def flush_vision_fusion_def flush_hand_contact_indices_def
  vision_is_fresh_def vision_is_long_stale_def publish_estimate_def pivot_frame_events_def
  polygon_message_def hand_front_center_def dot_def reasoner_updates_def
  corner_feasibility_events_def vision_recency_events_def np_argmin_def np_argmax_def
  initial_state_def pressing_input_def corner_input_def quiet_input_def vision_input_def
  no_contact_input_def ambiguous_no_contact_input_def after_other_mode_def
  late_corner_state_def null_estimate_input_def empty_contact_input_def
  no_contact_vertices_input_def fresh_vision_state_def undecided_flush_input_def
  boundary_flush_input_def stale_flush_input_def fresh_vision_limit_def
  hand_front_center_height_def
  state_at_cascade_def spec_cascade_def spec_corner_precondition_def
  spec_flush_precondition_def spec_vision_assist_precondition_def
  spec_no_contact_precondition_def spec_normal_force_exceeds_def upt_rec

subsection \<open>The mode cascade\<close>

text \<open>
  Claim C1. In every cycle that completes, the block of the cascade that runs is the one
  the ordered cascade of the specification selects (corner, then flush line, then vision
  assist, then no contact, else idle), a function of the cycle's inputs and the
  persistent state alone. The estimator's time is advanced once when a mode fires and the
  estimator is not called at all when the cycle idles, so at most one mode's call
  sequence is executed.
\<close>

theorem cascade_selects_one_mode:
  assumes "cycle n inp st = Inr r"
  shows "mode_fired r = spec_cascade inp (state_at_cascade inp st)
       \<and> count_list (estimator_calls (log r)) Increment_time
           = (if mode_fired r = Idle then 0 else 1)
       \<and> (mode_fired r = Idle \<longrightarrow> estimator_calls (log r) = [])"
  using assms
proof (cases rule: cycle_InrE)
  case (1 wr wl b published)
  note af = arbitrate_facts [OF 1(3)]
  have m: "br_mode b = spec_cascade inp (state_at_cascade inp st)"
    by (rule arbitrate_mode [OF 1(3)]) (rule fresh_vision_not_long_stale)
  have calls: "estimator_calls (log r) = estimator_calls (br_events b) @ estimator_calls published"
    by (simp add: 1(6) estimator_calls_append collaborator_updates_no_estimator_calls)
  have pub: "estimator_calls published = (if br_mode b = Idle then [] else [Compute_basic_estimate])"
  proof (cases "br_mode b = Idle")
    case True
    with af(1) 1(4) show ?thesis by simp
  next
    case False
    with af(1) 1(4) have "publish_estimate inp (wall_flag_of wr wl) (br_hand_contact_indices b) = Inr published"
      by simp
    then show ?thesis using False
      by (cases rule: publish_estimate_form) (simp add: estimator_calls_append)
  qed
  show ?thesis
    using m af(2,3) by (simp add: calls pub 1(7))
qed

theorem cascade_selects_one_mode_witness:
  "map_sum id mode_fired (cycle 4 corner_input (initial_state 0)) = Inr CornerContactMode
   \<and> spec_cascade corner_input (state_at_cascade corner_input (initial_state 0))
       = CornerContactMode
   \<and> map_sum id (\<lambda>r. count_list (estimator_calls (log r)) Increment_time)
        (cycle 4 corner_input (initial_state 0)) = Inr 1"
proof -
  have "\<exists>r. cycle 4 corner_input (initial_state 0) = Inr r"
    by (simp add: eval_defs)
  then obtain r where r: "cycle 4 corner_input (initial_state 0) = Inr r" ..
  have s: "spec_cascade corner_input (state_at_cascade corner_input (initial_state 0))
       = CornerContactMode"
    by (simp add: eval_defs)
  from cascade_selects_one_mode [OF r] s show ?thesis
    by (simp add: r)
qed

text \<open>
  Claim C5. The no-contact mode fires, and its kinematic constraint reaches the estimator,
  only when the line-to-no-contact check fires, vision has been stale for more than 1.0 s
  and the no-contact hypothesis set has exactly one hypothesis. When none of the three
  earlier modes fires and the hypothesis count is not 1, the cycle idles: the estimator is
  not called, nothing is published and the line-contact flag keeps its value.
\<close>

theorem no_contact_needs_unique_hypothesis:
  assumes "cycle n inp st = Inr r"
  shows "(mode_fired r = NoContactMode \<longrightarrow>
            line_line_to_no_contact_check inp
          \<and> time_since_last_vision_message (state_out r) > 1
          \<and> num_hypothesis (hypothesis_no_contact inp) = 1)
       \<and> (filter is_no_contact_constraint (estimator_calls (log r)) \<noteq> [] \<longrightarrow>
            mode_fired r = NoContactMode)
       \<and> (mode_fired r \<notin> {CornerContactMode, FlushLineContactMode, VisionAssistMode}
          \<and> num_hypothesis (hypothesis_no_contact inp) \<noteq> 1 \<longrightarrow>
            mode_fired r = Idle \<and> estimator_calls (log r) = [] \<and> publications (log r) = []
          \<and> state_out r = state_at_cascade inp st
          \<and> prev_step_was_line_contact (state_out r) = prev_step_was_line_contact st)"
  using assms
proof (cases rule: cycle_InrE)
  case (1 wr wl b published)
  note af = arbitrate_facts [OF 1(3)]
  have calls: "estimator_calls (log r) = estimator_calls (br_events b) @ estimator_calls published"
    by (simp add: 1(6) estimator_calls_append collaborator_updates_no_estimator_calls)
  have pubs: "publications (log r) = publications published"
    by (simp add: 1(6) publications_append collaborator_updates_no_estimator_calls af(4))
  have idle_pub: "published = []" if "br_mode b = Idle"
    using that af(1) 1(4) by simp
  have pub_calls: "filter is_no_contact_constraint (estimator_calls published) = []"
  proof (cases "br_can_run_estimate b")
    case True
    with 1(4) have "publish_estimate inp (wall_flag_of wr wl) (br_hand_contact_indices b) = Inr published"
      by simp
    then show ?thesis
      by (cases rule: publish_estimate_form) (simp add: estimator_calls_append)
  next
    case False
    with 1(4) show ?thesis by simp
  qed
  have ts: "time_since_last_vision_message (br_state b)
        = time_since_last_vision_message (state_at_cascade inp st)"
  proof -
    have "time_since_last_vision_message (br_state b)
        = time_since_last_vision_message ((state_at_cascade inp st)\<lparr> prev_step_was_line_contact :=
                             prev_step_was_line_contact (br_state b) \<rparr>)"
      using af(5) by (rule arg_cong)
    then show ?thesis by simp
  qed
  from 1(3) have branch:
    "(br_mode b = NoContactMode \<longrightarrow>
            line_line_to_no_contact_check inp
          \<and> vision_is_long_stale (state_at_cascade inp st)
          \<and> num_hypothesis (hypothesis_no_contact inp) = 1)
     \<and> (filter is_no_contact_constraint (estimator_calls (br_events b)) \<noteq> [] \<longrightarrow>
            br_mode b = NoContactMode)
     \<and> (br_mode b \<notin> {CornerContactMode, FlushLineContactMode, VisionAssistMode}
          \<and> num_hypothesis (hypothesis_no_contact inp) \<noteq> 1 \<longrightarrow> br_mode b = Idle)"
  proof (cases rule: arbitrate_cases)
    case corner
    from corner_branch_facts [OF corner(2)] show ?thesis by simp
  next
    case flush
    from flush_branch_facts [OF flush(3)] show ?thesis by simp
  next
    case vision
    from vision_branch_facts [OF vision(4)] show ?thesis by (simp split: if_splits)
  next
    case no_contact
    from no_contact_branch_facts [OF no_contact(6)] no_contact(4,5) show ?thesis
      by (simp split: if_splits)
  next
    case idle
    then show ?thesis by (simp add: idle_result_def)
  qed
  have c1: "mode_fired r = NoContactMode \<longrightarrow>
            line_line_to_no_contact_check inp
          \<and> time_since_last_vision_message (state_out r) > 1
          \<and> num_hypothesis (hypothesis_no_contact inp) = 1"
    using branch by (simp add: 1(5,7) ts vision_is_long_stale_def)
  have c2: "filter is_no_contact_constraint (estimator_calls (log r)) \<noteq> [] \<longrightarrow>
            mode_fired r = NoContactMode"
    using branch by (simp add: 1(7) calls pub_calls)
  have c3: "mode_fired r = Idle \<and> estimator_calls (log r) = [] \<and> publications (log r) = []
          \<and> state_out r = state_at_cascade inp st
          \<and> prev_step_was_line_contact (state_out r) = prev_step_was_line_contact st"
    if "mode_fired r \<notin> {CornerContactMode, FlushLineContactMode, VisionAssistMode}"
      "num_hypothesis (hypothesis_no_contact inp) \<noteq> 1"
  proof -
    from that branch have idle: "br_mode b = Idle" by (simp add: 1(7))
    from af(6) [OF idle] have s: "state_out r = state_at_cascade inp st" by (simp add: 1(5))
    show ?thesis
      using idle af(3) [OF idle] idle_pub [OF idle]
      by (simp add: 1(7) calls pubs s state_at_cascade_fields)
  qed
  from c1 c2 c3 show ?thesis by blast
qed

theorem no_contact_needs_unique_hypothesis_witness:
  "map_sum id mode_fired (cycle 4 no_contact_input (initial_state 0)) = Inr NoContactMode
   \<and> line_line_to_no_contact_check no_contact_input
   \<and> num_hypothesis (hypothesis_no_contact no_contact_input) = 1
   \<and> map_sum id (\<lambda>r. 1 < time_since_last_vision_message (state_out r))
        (cycle 4 no_contact_input (initial_state 0)) = Inr True
   \<and> num_hypothesis (hypothesis_no_contact ambiguous_no_contact_input) = 2
   \<and> map_sum id (\<lambda>r. (mode_fired r, estimator_calls (log r)))
        (cycle 4 ambiguous_no_contact_input (initial_state 0)) = Inr (Idle, [])"
proof -
  have "\<exists>r. cycle 4 no_contact_input (initial_state 0) = Inr r"
    by (simp add: eval_defs)
  then obtain r where r: "cycle 4 no_contact_input (initial_state 0) = Inr r" ..
  have "map_sum id mode_fired (cycle 4 no_contact_input (initial_state 0)) = Inr NoContactMode"
    by (simp add: eval_defs)
  then have m: "mode_fired r = NoContactMode"
    by (simp add: r)
  have "\<exists>r. cycle 4 ambiguous_no_contact_input (initial_state 0) = Inr r"
    by (simp add: eval_defs)
  then obtain q where q: "cycle 4 ambiguous_no_contact_input (initial_state 0) = Inr q" ..
  have "map_sum id mode_fired (cycle 4 ambiguous_no_contact_input (initial_state 0)) = Inr Idle"
    by (simp add: eval_defs)
  then have n: "mode_fired q = Idle"
    by (simp add: q)
  have k: "num_hypothesis (hypothesis_no_contact ambiguous_no_contact_input) = 2"
    by (simp add: eval_defs)
  have c1: "line_line_to_no_contact_check no_contact_input
          \<and> time_since_last_vision_message (state_out r) > 1
          \<and> num_hypothesis (hypothesis_no_contact no_contact_input) = 1"
    using no_contact_needs_unique_hypothesis [OF r] m by blast
  have c2: "estimator_calls (log q) = []"
    using no_contact_needs_unique_hypothesis [OF q] n k by simp
  from c1 c2 m n k show ?thesis
    by (simp add: r q)
qed

subsection \<open>Corner-contact hysteresis\<close>

text \<open>A cycle without hand contact, vision or transition check completes from every
  state; such cycles are used below as the cycles with an infeasible report.\<close>

lemma quiet_cycle_completes: "\<exists>r. cycle n quiet_input st = Inr r"
  by (simp add: eval_defs Let_def)

lemma quiet_run_completes: "\<exists>st'. run_cycles n (replicate k quiet_input) st = Inr st'"
proof (induction k arbitrary: st)
  case 0
  show ?case by simp
next
  case (Suc k)
  from quiet_cycle_completes obtain r where r: "cycle n quiet_input st = Inr r" ..
  from Suc [of "state_out r"] show ?case by (simp add: r py_bind_def)
qed

lemma quiet_inputs_infeasible:
  "list_all (\<lambda>i. has_run_once i \<and> \<not> is_feasible (temp_corner_contact_dict i))
     (replicate k quiet_input)"
  by (simp add: list_all_iff eval_defs)

text \<open>
  Claim C2, as amended. A cycle in which the estimator has run once and the reasoner
  reports corner contact feasible sets \<open>corner_contact_is_feasible\<close>, resets the miss
  counter to 0 and latches the report as the current corner hypothesis. After any number
  of directly following cycles with infeasible reports the counter holds that number, and
  corner contact still counts as feasible exactly when the number is at most 15: fifteen
  consecutive infeasible reports do not flip the flag, the sixteenth does.
\<close>

theorem corner_feasibility_hysteresis:
  assumes "cycle n inp0 st = Inr r0"
    and "has_run_once inp0" and "is_feasible (temp_corner_contact_dict inp0)"
    and "run_cycles n inps (state_out r0) = Inr st'"
    and "list_all (\<lambda>i. has_run_once i \<and> \<not> is_feasible (temp_corner_contact_dict i)) inps"
  shows "corner_contact_is_feasible (state_out r0)
       \<and> num_line_contact_detected_count (state_out r0) = 0
       \<and> corner_contact_dict (state_out r0) = Some (temp_corner_contact_dict inp0)
       \<and> num_line_contact_detected_count st' = enat (length inps)
       \<and> (corner_contact_is_feasible st' \<longleftrightarrow> length inps \<le> 15)"
proof -
  have u: "update_corner_feasibility inp0 st
             = st\<lparr> corner_contact_is_feasible := True,
                   corner_contact_dict := Some (temp_corner_contact_dict inp0),
                   num_line_contact_detected_count := 0 \<rparr>"
    using assms(2,3) by (simp add: update_corner_feasibility_def corner_feasibility_report_def)
  have a: "corner_contact_is_feasible (state_out r0)"
    and b: "num_line_contact_detected_count (state_out r0) = 0"
    and c: "corner_contact_dict (state_out r0) = Some (temp_corner_contact_dict inp0)"
    using cycle_hysteresis_fields [OF assms(1)] by (simp_all add: u)
  from b have b': "num_line_contact_detected_count (state_out r0) = enat 0"
    by (simp add: zero_enat_def)
  from a have a': "corner_contact_is_feasible (state_out r0) \<longleftrightarrow> (0::nat) \<le> 15" by simp
  from infeasible_run [OF assms(4,5) b' a'] a b c show ?thesis by simp
qed

theorem corner_feasibility_hysteresis_witness:
  "has_run_once corner_input \<and> is_feasible (temp_corner_contact_dict corner_input)
   \<and> has_run_once quiet_input \<and> \<not> is_feasible (temp_corner_contact_dict quiet_input)
   \<and> map_sum id corner_contact_is_feasible
        (run_cycles 4 (corner_input # replicate 14 quiet_input) (initial_state 0)) = Inr True
   \<and> map_sum id corner_contact_is_feasible
        (run_cycles 4 (corner_input # replicate 16 quiet_input) (initial_state 0)) = Inr False"
proof -
  have "\<exists>r. cycle 4 corner_input (initial_state 0) = Inr r"
    by (simp add: eval_defs)
  then obtain r0 where r0: "cycle 4 corner_input (initial_state 0) = Inr r0" ..
  have h: "has_run_once corner_input" "is_feasible (temp_corner_contact_dict corner_input)"
    "has_run_once quiet_input" "\<not> is_feasible (temp_corner_contact_dict quiet_input)"
    by (simp_all add: eval_defs)
  from quiet_run_completes obtain s14 where
    s14: "run_cycles 4 (replicate 14 quiet_input) (state_out r0) = Inr s14" ..
  from quiet_run_completes obtain s16 where
    s16: "run_cycles 4 (replicate 16 quiet_input) (state_out r0) = Inr s16" ..
  from corner_feasibility_hysteresis [OF r0 h(1,2) s14 quiet_inputs_infeasible]
  have a: "corner_contact_is_feasible s14" by simp
  from corner_feasibility_hysteresis [OF r0 h(1,2) s16 quiet_inputs_infeasible]
  have b: "\<not> corner_contact_is_feasible s16" by simp
  from a b h show ?thesis
    by (simp add: r0 s14 s16 py_bind_def)
qed

text \<open>
  The claim as written has the fifteenth consecutive infeasible report flip the flag. The
  loop tests \<^verbatim>\<open>num_line_contact_detected_count>15\<close> after the increment: after a feasible
  report and fifteen infeasible ones the counter is 15 and the flag is still true.
\<close>

theorem corner_feasibility_hysteresis_counterexample:
  "has_run_once corner_input \<and> is_feasible (temp_corner_contact_dict corner_input)
   \<and> has_run_once quiet_input \<and> \<not> is_feasible (temp_corner_contact_dict quiet_input)
   \<and> map_sum id corner_contact_is_feasible
        (run_cycles 4 (corner_input # replicate 15 quiet_input) (initial_state 0)) = Inr True"
proof -
  have "\<exists>r. cycle 4 corner_input (initial_state 0) = Inr r"
    by (simp add: eval_defs)
  then obtain r0 where r0: "cycle 4 corner_input (initial_state 0) = Inr r0" ..
  have h: "has_run_once corner_input" "is_feasible (temp_corner_contact_dict corner_input)"
    "has_run_once quiet_input" "\<not> is_feasible (temp_corner_contact_dict quiet_input)"
    by (simp_all add: eval_defs)
  have "map_sum id (\<lambda>r. (corner_contact_is_feasible (state_out r),
            num_line_contact_detected_count (state_out r)))
          (cycle 4 corner_input (initial_state 0)) = Inr (True, 0)"
    by (simp add: eval_defs)
  then have f: "corner_contact_is_feasible (state_out r0) \<longleftrightarrow> (0::nat) \<le> 15"
    and c: "num_line_contact_detected_count (state_out r0) = enat 0"
    by (simp_all add: r0 zero_enat_def)
  from quiet_run_completes obtain s15 where
    s15: "run_cycles 4 (replicate 15 quiet_input) (state_out r0) = Inr s15" ..
  from infeasible_run [OF s15 quiet_inputs_infeasible c f]
  have "corner_contact_is_feasible s15" by simp
  with h show ?thesis
    by (simp add: r0 s15 py_bind_def)
qed

subsection \<open>The slip parameter and the line-contact flag\<close>

text \<open>
  Claim C7. Whenever the flush-line mode fires, the loop assigns the reasoner's slip
  estimate to the estimator's \<open>s_current\<close> exactly when the line-contact flag was false
  at the start of the cycle, makes no assignment to it when the flag was true, and leaves
  the flag true.
\<close>

theorem flush_reseeds_slip:
  assumes "cycle n inp st = Inr r" and "mode_fired r = FlushLineContactMode"
  shows "filter is_set_s_current (estimator_calls (log r)) =
           (if prev_step_was_line_contact st then []
            else [Set_s_current (snd (hand_contact_face inp))])
       \<and> prev_step_was_line_contact (state_out r)"
  using assms by (rule flush_cycle_facts)

theorem flush_reseeds_slip_witness:
  "map_sum id mode_fired (cycle 4 pressing_input after_other_mode) = Inr FlushLineContactMode
   \<and> \<not> prev_step_was_line_contact after_other_mode
   \<and> map_sum id (\<lambda>r. filter is_set_s_current (estimator_calls (log r)))
        (cycle 4 pressing_input after_other_mode) = Inr [Set_s_current (1 / 2)]
   \<and> map_sum id (\<lambda>r. prev_step_was_line_contact (state_out r))
        (cycle 4 pressing_input after_other_mode) = Inr True
   \<and> prev_step_was_line_contact (initial_state 0)
   \<and> map_sum id (\<lambda>r. filter is_set_s_current (estimator_calls (log r)))
        (cycle 4 pressing_input (initial_state 0)) = Inr []"
proof -
  have "\<exists>r. cycle 4 pressing_input after_other_mode = Inr r"
    by (simp add: eval_defs)
  then obtain r where r: "cycle 4 pressing_input after_other_mode = Inr r" ..
  have "map_sum id mode_fired (cycle 4 pressing_input after_other_mode)
      = Inr FlushLineContactMode"
    by (simp add: eval_defs)
  then have m: "mode_fired r = FlushLineContactMode" by (simp add: r)
  have "\<exists>r. cycle 4 pressing_input (initial_state 0) = Inr r"
    by (simp add: eval_defs)
  then obtain q where q: "cycle 4 pressing_input (initial_state 0) = Inr q" ..
  have "map_sum id mode_fired (cycle 4 pressing_input (initial_state 0))
      = Inr FlushLineContactMode"
    by (simp add: eval_defs)
  then have n: "mode_fired q = FlushLineContactMode" by (simp add: q)
  have p: "\<not> prev_step_was_line_contact after_other_mode"
    "prev_step_was_line_contact (initial_state 0)"
    "snd (hand_contact_face pressing_input) = 1 / 2"
    by (simp_all add: eval_defs)
  from flush_reseeds_slip [OF r m] flush_reseeds_slip [OF q n] p m show ?thesis
    by (simp add: r q)
qed

text \<open>
  Claim C9. Whenever the corner-contact mode fires, the line-contact flag is false
  afterwards, so a flush-line cycle that follows it directly assigns the reasoner's slip
  estimate to \<open>s_current\<close>.
\<close>

theorem corner_then_flush_reseeds:
  assumes "cycle n inp1 st = Inr r1" and "mode_fired r1 = CornerContactMode"
    and "cycle n inp2 (state_out r1) = Inr r2" and "mode_fired r2 = FlushLineContactMode"
  shows "\<not> prev_step_was_line_contact (state_out r1)
       \<and> filter is_set_s_current (estimator_calls (log r2)) =
           [Set_s_current (snd (hand_contact_face inp2))]"
  using corner_cycle_facts [OF assms(1,2)] flush_cycle_facts [OF assms(3,4)]
  by simp

theorem corner_then_flush_reseeds_witness:
  "map_sum id mode_fired (cycle 4 pressing_input late_corner_state) = Inr CornerContactMode
   \<and> map_sum id mode_fired
        (py_bind (cycle 4 pressing_input late_corner_state)
           (\<lambda>r1. cycle 4 pressing_input (state_out r1))) = Inr FlushLineContactMode
   \<and> map_sum id (\<lambda>r2. filter is_set_s_current (estimator_calls (log r2)))
        (py_bind (cycle 4 pressing_input late_corner_state)
           (\<lambda>r1. cycle 4 pressing_input (state_out r1))) = Inr [Set_s_current (1 / 2)]"
proof -
  have "\<exists>r. cycle 4 pressing_input late_corner_state = Inr r"
    by (simp add: eval_defs)
  then obtain r1 where r1: "cycle 4 pressing_input late_corner_state = Inr r1" ..
  have "map_sum id mode_fired (cycle 4 pressing_input late_corner_state)
      = Inr CornerContactMode"
    by (simp add: eval_defs)
  then have m1: "mode_fired r1 = CornerContactMode" by (simp add: r1)
  have "map_sum id state_out (cycle 4 pressing_input late_corner_state)
      = Inr (late_corner_state\<lparr> num_line_contact_detected_count := 15,
               time_since_last_vision_message := 1,
               prev_step_was_line_contact := False \<rparr>)"
    by (simp add: eval_defs one_enat_def numeral_eq_enat)
  then have s1: "state_out r1 = late_corner_state\<lparr> num_line_contact_detected_count := 15,
               time_since_last_vision_message := 1,
               prev_step_was_line_contact := False \<rparr>"
    by (simp add: r1)
  have "\<exists>r. cycle 4 pressing_input (state_out r1) = Inr r"
    unfolding s1 by (simp add: eval_defs)
  then obtain r2 where r2: "cycle 4 pressing_input (state_out r1) = Inr r2" ..
  have "map_sum id mode_fired (cycle 4 pressing_input (state_out r1))
      = Inr FlushLineContactMode"
    unfolding s1 by (simp add: eval_defs one_enat_def numeral_eq_enat)
  then have m2: "mode_fired r2 = FlushLineContactMode" by (simp add: r2)
  have p: "snd (hand_contact_face pressing_input) = 1 / 2"
    by (simp add: eval_defs)
  from corner_then_flush_reseeds [OF r1 m1 r2 m2] m1 m2 p show ?thesis
    by (simp add: r1 r2 py_bind_def)
qed

subsection \<open>Estimate and publication\<close>

text \<open>
  Claim C10. In every cycle in which a mode fired, the loop hands the raw result of
  \<^verbatim>\<open>compute_basic_estimate\<close> to the reasoner's \<^verbatim>\<open>update_previous_estimate\<close> directly after
  computing it and before anything is published. When that result is null nothing is
  published, and the call that overwrites the reasoner's previous estimate with null is
  the last thing the cycle does.
\<close>

theorem previous_estimate_updated_before_null_check:
  assumes "cycle n inp st = Inr r" and "mode_fired r \<noteq> Idle"
  shows "\<exists>pre pubs.
           log r = pre @ [Est Compute_basic_estimate,
                          Rsn (Update_previous_estimate (basic_estimate inp))] @ pubs
         \<and> publications pre = []
         \<and> (basic_estimate inp = None \<longrightarrow>
               pubs = [] \<and> publications (log r) = []
             \<and> last (log r) = Rsn (Update_previous_estimate None))"
  using assms(1)
proof (cases rule: cycle_log_form)
  case (1 wr wl b pre pubs)
  from assms(2) 1(3) have m: "br_mode b \<noteq> Idle" by simp
  have lg: "log r = pre @ [Est Compute_basic_estimate,
                      Rsn (Update_previous_estimate (basic_estimate inp))] @ pubs"
    by (rule 1(8) [OF m])
  have nul: "basic_estimate inp = None \<longrightarrow>
               pubs = [] \<and> publications (log r) = []
             \<and> last (log r) = Rsn (Update_previous_estimate None)"
  proof
    assume e: "basic_estimate inp = None"
    from 1(10) [OF e] 1(5) e
    show "pubs = [] \<and> publications (log r) = []
             \<and> last (log r) = Rsn (Update_previous_estimate None)"
      by (simp add: lg publications_append)
  qed
  show ?thesis
    by (rule exI [of _ pre], rule exI [of _ pubs]) (intro conjI lg 1(5) nul)
qed

theorem previous_estimate_updated_before_null_check_witness:
  "map_sum id mode_fired (cycle 4 null_estimate_input (initial_state 0))
     = Inr FlushLineContactMode
   \<and> basic_estimate null_estimate_input = None
   \<and> map_sum id (\<lambda>r. (last (log r), publications (log r)))
        (cycle 4 null_estimate_input (initial_state 0))
     = Inr (Rsn (Update_previous_estimate None), [])"
proof -
  have "\<exists>r. cycle 4 null_estimate_input (initial_state 0) = Inr r"
    by (simp add: eval_defs)
  then obtain r where r: "cycle 4 null_estimate_input (initial_state 0) = Inr r" ..
  have "map_sum id mode_fired (cycle 4 null_estimate_input (initial_state 0))
      = Inr FlushLineContactMode"
    by (simp add: eval_defs)
  then have m: "mode_fired r = FlushLineContactMode" by (simp add: r)
  then have i: "mode_fired r \<noteq> Idle" by simp
  have e: "basic_estimate null_estimate_input = None"
    by (simp add: eval_defs)
  from previous_estimate_updated_before_null_check [OF r i] e m show ?thesis
    by (auto simp: r)
qed

text \<open>On a completed cycle with a non-null estimate the pivot-frame message is published
  exactly when \<^verbatim>\<open>contact_vertices\<close> is not \<^verbatim>\<open>None\<close>, and carries the normal and
  tangential position of the first contact vertex and the fixed height of the hand's front
  centre.\<close>

lemma pivot_frame_on_completed_cycle:
  assumes "cycle n inp st = Inr r" and "mode_fired r \<noteq> Idle"
    and "basic_estimate inp = Some e"
  shows "(contact_vertices inp = None \<longrightarrow> pivot_frames (publications (log r)) = [])
       \<and> (\<forall>cv. contact_vertices inp = Some cv \<longrightarrow>
            (\<exists>contact_index row_n pn_wm row_t pt_wm hand_front_center_world z.
                py_get cv 0 = Inr contact_index
              \<and> py_get (vertex_positions_wm_current e) 0 = Inr row_n
              \<and> py_get row_n contact_index = Inr pn_wm
              \<and> py_get (vertex_positions_wm_current e) 1 = Inr row_t
              \<and> py_get row_t contact_index = Inr pt_wm
              \<and> np_dot (ee_pose_in_world_manipulation_homog inp) hand_front_center
                  = Inr hand_front_center_world
              \<and> py_get hand_front_center_world 2 = Inr z
              \<and> pivot_frames (publications (log r)) = [[pn_wm, pt_wm, z]]))"
  using assms(1)
proof (cases rule: cycle_log_form)
  case (1 wr wl b pre pubs)
  from assms(2) 1(3) have m: "br_mode b \<noteq> Idle" by simp
  have lg: "log r = pre @ [Est Compute_basic_estimate,
                      Rsn (Update_previous_estimate (basic_estimate inp))] @ pubs"
    by (rule 1(8) [OF m])
  from 1(11) [OF m assms(3)] obtain hfcw pivot msg where
    h: "np_dot (ee_pose_in_world_manipulation_homog inp) hand_front_center = Inr hfcw"
    and pv: "pivot_frame_events inp e hfcw = Inr pivot"
    and pubs: "pubs = pivot @ [Pub (Pub_polygon_contact_estimate msg)]"
    by blast
  have frames: "pivot_frames (publications (log r)) = pivot_frames (publications pivot)"
    by (simp add: lg pubs publications_append pivot_frames_append 1(5))
  have none: "pivot_frames (publications (log r)) = []" if "contact_vertices inp = None"
    using pivot_frame_events_facts(2) [OF pv that] by (simp add: frames)
  have some: "\<exists>contact_index row_n pn_wm row_t pt_wm hand_front_center_world z.
                py_get cv 0 = Inr contact_index
              \<and> py_get (vertex_positions_wm_current e) 0 = Inr row_n
              \<and> py_get row_n contact_index = Inr pn_wm
              \<and> py_get (vertex_positions_wm_current e) 1 = Inr row_t
              \<and> py_get row_t contact_index = Inr pt_wm
              \<and> np_dot (ee_pose_in_world_manipulation_homog inp) hand_front_center
                  = Inr hand_front_center_world
              \<and> py_get hand_front_center_world 2 = Inr z
              \<and> pivot_frames (publications (log r)) = [[pn_wm, pt_wm, z]]"
    if "contact_vertices inp = Some cv" for cv
  proof -
    from pivot_frame_events_facts(3) [OF pv that] obtain ci row_n pn row_t pt z where
      f: "py_get cv 0 = Inr ci" "py_get (vertex_positions_wm_current e) 0 = Inr row_n"
        "py_get row_n ci = Inr pn" "py_get (vertex_positions_wm_current e) 1 = Inr row_t"
        "py_get row_t ci = Inr pt" "py_get hfcw 2 = Inr z"
        "pivot = [Pub (Pub_pivot_frame_estimated [pn, pt, z])]"
      by blast
    have "pivot_frames (publications (log r)) = [[pn, pt, z]]"
      by (simp add: frames f(7))
    with f h show ?thesis by blast
  qed
  from none some show ?thesis by blast
qed

lemma pivot_frame_on_completed_cycle_example:
  "map_sum id mode_fired (cycle 4 pressing_input (initial_state 0)) = Inr FlushLineContactMode
   \<and> contact_vertices pressing_input = Some [1]
   \<and> map_sum id (\<lambda>r. pivot_frames (publications (log r)))
        (cycle 4 pressing_input (initial_state 0)) = Inr [[1, 0, hand_front_center_height]]
   \<and> contact_vertices no_contact_vertices_input = None
   \<and> map_sum id (\<lambda>r. pivot_frames (publications (log r)))
        (cycle 4 no_contact_vertices_input (initial_state 0)) = Inr []"
proof -
  let ?e = "\<lparr> vertex_positions_wm_current = [[0, 1, 1, 0], [0, 0, 1, 1]],
             mglcostheta_current = [0, 0, 0, 0],
             mglsintheta_current = [0, 0, 0, 0 :: real] \<rparr>"
  have "\<exists>r. cycle 4 pressing_input (initial_state 0) = Inr r"
    by (simp add: eval_defs)
  then obtain r where r: "cycle 4 pressing_input (initial_state 0) = Inr r" ..
  have "map_sum id mode_fired (cycle 4 pressing_input (initial_state 0))
      = Inr FlushLineContactMode"
    by (simp add: eval_defs)
  then have m: "mode_fired r = FlushLineContactMode" by (simp add: r)
  then have i: "mode_fired r \<noteq> Idle" by simp
  have e: "basic_estimate pressing_input = Some ?e"
    and cv: "contact_vertices pressing_input = Some [1]"
    and h: "np_dot (ee_pose_in_world_manipulation_homog pressing_input) hand_front_center
            = Inr [0, 0, hand_front_center_height, 1]"
    by (simp_all add: cycle_def pressing_input_def np_dot_def hand_front_center_def dot_def)
  from pivot_frame_on_completed_cycle [OF r i e] cv
  obtain ci row_n pn row_t pt w z where
    f: "py_get [1] 0 = Inr ci" "py_get (vertex_positions_wm_current ?e) 0 = Inr row_n"
      "py_get row_n ci = Inr pn" "py_get (vertex_positions_wm_current ?e) 1 = Inr row_t"
      "py_get row_t ci = Inr pt"
      "np_dot (ee_pose_in_world_manipulation_homog pressing_input) hand_front_center = Inr w"
      "py_get w 2 = Inr z" "pivot_frames (publications (log r)) = [[pn, pt, z]]"
    by blast
  from f(1) have ci: "ci = 1" by (simp add: py_get_def)
  from f(2) have rn: "row_n = [0, 1, 1, 0]" by (simp add: py_get_def)
  from f(4) have rt: "row_t = [0, 0, 1, 1]" by (simp add: py_get_def)
  from f(6) h have w: "w = [0, 0, hand_front_center_height, 1]" by simp
  from f(3) have pn: "pn = 1" by (simp add: py_get_def ci rn)
  from f(5) have pt: "pt = 0" by (simp add: py_get_def ci rt)
  from f(7) have z: "z = hand_front_center_height" by (simp add: py_get_def w)
  have one: "pivot_frames (publications (log r)) = [[1, 0, hand_front_center_height]]"
    by (simp add: f(8) pn pt z)
  have "\<exists>r. cycle 4 no_contact_vertices_input (initial_state 0) = Inr r"
    by (simp add: eval_defs)
  then obtain q where q: "cycle 4 no_contact_vertices_input (initial_state 0) = Inr q" ..
  have "map_sum id mode_fired (cycle 4 no_contact_vertices_input (initial_state 0))
      = Inr FlushLineContactMode"
    by (simp add: eval_defs)
  then have j: "mode_fired q \<noteq> Idle" by (simp add: q)
  have e': "basic_estimate no_contact_vertices_input = Some ?e"
    and cv': "contact_vertices no_contact_vertices_input = None"
    by (simp_all add: eval_defs)
  from pivot_frame_on_completed_cycle [OF q j e'] cv'
  have none: "pivot_frames (publications (log q)) = []" by blast
  from one none m cv cv' show ?thesis
    by (simp add: r q)
qed


subsection \<open>Vision fusion and staleness\<close>

text \<open>The scenario state \<open>fresh_vision_state\<close> is the one the loop is in after a
  vision-assisted first cycle.\<close>

lemma fresh_vision_state_reached:
  "map_sum id state_out (cycle 4 vision_input (initial_state 0)) = Inr fresh_vision_state"
  by (simp add: eval_defs)

text \<open>
  Claim C4, as the code has it. In a flush-line cycle with fresh vision the loop calls
  \<^verbatim>\<open>add_vision_estimate\<close> before it looks at the reasoner's choice (line 286): when the
  choice is null the estimator still receives the vision estimate, and only the
  flush-contact vision constraint is withheld. The corner-contact block (lines 251--253)
  withholds both, see \<open>corner_cycle_no_vision_without_hypothesis\<close>.
\<close>

theorem flush_vision_estimate_without_hypothesis:
  assumes "cycle n inp st = Inr r" and "mode_fired r = FlushLineContactMode"
    and "time_since_last_vision_message (state_out r) < 2 / 10"
    and "hypothesis_index inp = None"
  shows "\<exists>v. vision_vertex_array (state_out r) = Some v
           \<and> filter is_vision_input (estimator_calls (log r)) = [Add_vision_estimate v]"
  using assms by (rule flush_cycle_vision_inputs)

theorem flush_vision_estimate_without_hypothesis_witness:
  "map_sum id (\<lambda>r. (mode_fired r, time_since_last_vision_message (state_out r)))
     (cycle 4 undecided_flush_input fresh_vision_state) = Inr (FlushLineContactMode, 1 / 10)
   \<and> hypothesis_index undecided_flush_input = None
   \<and> map_sum id (\<lambda>r. filter is_vision_input (estimator_calls (log r)))
        (cycle 4 undecided_flush_input fresh_vision_state)
      = Inr [Add_vision_estimate [[0, 1, 1, 0], [0, 0, 1, 1]]]"
proof -
  have "\<exists>r. cycle 4 undecided_flush_input fresh_vision_state = Inr r"
    by (simp add: eval_defs)
  then obtain r where r: "cycle 4 undecided_flush_input fresh_vision_state = Inr r" ..
  have "map_sum id (\<lambda>r. (mode_fired r, time_since_last_vision_message (state_out r),
            vision_vertex_array (state_out r)))
     (cycle 4 undecided_flush_input fresh_vision_state)
     = Inr (FlushLineContactMode, 1 / 10, Some [[0, 1, 1, 0], [0, 0, 1, 1]])"
    by (simp add: eval_defs)
  then have m: "mode_fired r = FlushLineContactMode"
    and t: "time_since_last_vision_message (state_out r) = 1 / 10"
    and v: "vision_vertex_array (state_out r) = Some [[0, 1, 1, 0], [0, 0, 1, 1]]"
    by (simp_all add: r)
  from t have fresh: "time_since_last_vision_message (state_out r) < 2 / 10" by simp
  have h: "hypothesis_index undecided_flush_input = None"
    by (simp add: eval_defs)
  from flush_vision_estimate_without_hypothesis [OF r m fresh h] v
  have "filter is_vision_input (estimator_calls (log r))
          = [Add_vision_estimate [[0, 1, 1, 0], [0, 0, 1, 1]]]"
    by auto
  with m t h show ?thesis by (simp add: r)
qed



subsection \<open>Wall-contact margin\<close>

lemma wall_contact_bool_single_row:
  assumes "length a = length wrench"
  shows "wall_contact_bool [a] [b] wrench = Inr (dot a wrench > b + 3)"
  using assms
  by (simp add: wall_contact_bool_def np_dot_def np_greater_def py_bind_def
      wall_contact_force_margin_def)

text \<open>
  Claim C6, as amended. With the margin 3.0 the right-wall test of a single row fires
  exactly when the row's product with the measured wrench exceeds its bound plus 3.0. A
  product of 5.0 therefore triggers the test for the bound 1.0 (5 > 4) as well as for the
  bound 0.5 (5 > 3.5).
\<close>

theorem wall_margin_scenario:
  assumes "length a_er = length wrench" and "dot a_er wrench = 5"
  shows "wall_contact_force_margin = 3
       \<and> wall_contact_bool [a_er] [b_er] wrench = Inr (5 > b_er + 3)
       \<and> wall_contact_bool [a_er] [1] wrench = Inr True
       \<and> wall_contact_bool [a_er] [1 / 2] wrench = Inr True"
  using assms
  by (simp add: wall_contact_bool_single_row wall_contact_force_margin_def)

theorem wall_margin_scenario_witness:
  "length [5, 0, 0 :: real] = length [1, 0, 0 :: real]
   \<and> dot [5, 0, 0] [1, 0, 0] = 5
   \<and> wall_contact_bool [[5, 0, 0]] [2] [1, 0, 0] = Inr False
   \<and> wall_contact_bool [[5, 0, 0]] [1] [1, 0, 0] = Inr True
   \<and> wall_contact_bool [[5, 0, 0]] [1 / 2] [1, 0, 0] = Inr True"
  using wall_margin_scenario [of "[5, 0, 0]" "[1, 0, 0]" 2]
  by (simp add: dot_def)

text \<open>
  The claim as written has the bound 1.0 not trigger the test. At the wrench (1, 0, 0)
  and the row (5, 0, 0), whose product is 5.0, the code's test is true.
\<close>

theorem wall_margin_counterexample:
  "dot [5, 0, 0] [1, 0, 0] = 5 \<and> wall_contact_bool [[5, 0, 0]] [1] [1, 0, 0] \<noteq> Inr False"
  by (simp add: wall_contact_bool_def np_dot_def np_greater_def py_bind_def dot_def
      wall_contact_force_margin_def)

end
